theory Spec2Isabelle
  imports Main "HOL-Library.Sublist"
begin

section \<open>Telemetry: the logger module (utils/logger)\<close>

text \<open>
  The four levels of the \<^verbatim>\<open>LogLevel\<close> enumeration that the logger uses, both as the
  value of the counter's \<^verbatim>\<open>level\<close> label and as the pino method that is called.
\<close>

datatype LogLevel = DEBUG | INFO | WARN | ERROR

text \<open>
  The options object handed to \<^verbatim>\<open>new Counter\<close>, and the prom-client registry the
  module builds and exports as \<^verbatim>\<open>register\<close>.
\<close>

record counter_config =
  name :: string
  help_text :: string
  labelNames :: "string list"

definition logCounter :: counter_config where
  "logCounter =
     \<lparr>name = ''pino_logs_total'',
      help_text = ''Total number of log messages'',
      labelNames = [''level'']\<rparr>"

record Registry =
  defaultLabels :: "(string \<times> string) list"
  registered :: "counter_config list"
  defaultMetrics :: bool

definition new_Registry :: Registry where
  "new_Registry = \<lparr>defaultLabels = [], registered = [], defaultMetrics = False\<rparr>"

definition setDefaultLabels :: "(string \<times> string) list \<Rightarrow> Registry \<Rightarrow> Registry" where
  "setDefaultLabels ls r = r\<lparr>defaultLabels := ls\<rparr>"

definition registerMetric :: "counter_config \<Rightarrow> Registry \<Rightarrow> Registry" where
  "registerMetric m r = r\<lparr>registered := registered r @ [m]\<rparr>"

definition collectDefaultMetrics :: "Registry \<Rightarrow> Registry" where
  "collectDefaultMetrics r = r\<lparr>defaultMetrics := True\<rparr>"

definition register :: Registry where
  "register =
     collectDefaultMetrics
       (registerMetric logCounter
         (setDefaultLabels [(''app'', ''foundryvtt-rest-api-relay'')] new_Registry))"

text \<open>
  The pino logger. pino is a library, not code of the repository; what matters here is
  its level rule: a logger has a numeric threshold (or is silent), every method has a
  numeric level, and a call writes a line only when the method's level reaches the
  threshold. The threshold comes from \<^verbatim>\<open>process.env.LOG_LEVEL || LogLevel.INFO\<close>.
\<close>

record pino_logger =
  threshold :: "nat option"

fun pino_level_value :: "LogLevel \<Rightarrow> nat" where
  "pino_level_value DEBUG = 20"
| "pino_level_value INFO = 30"
| "pino_level_value WARN = 40"
| "pino_level_value ERROR = 50"

definition configured_level :: "string option \<Rightarrow> string" where
  "configured_level v =
     (case v of None \<Rightarrow> ''info'' | Some s \<Rightarrow> if s = [] then ''info'' else s)"

text \<open>Creating the logger fails (pino throws) on a level name it does not know.\<close>

definition pino :: "string \<Rightarrow> pino_logger option" where
  "pino lvl =
     (if lvl = ''trace'' then Some \<lparr>threshold = Some 10\<rparr>
      else if lvl = ''debug'' then Some \<lparr>threshold = Some 20\<rparr>
      else if lvl = ''info'' then Some \<lparr>threshold = Some 30\<rparr>
      else if lvl = ''warn'' then Some \<lparr>threshold = Some 40\<rparr>
      else if lvl = ''error'' then Some \<lparr>threshold = Some 50\<rparr>
      else if lvl = ''fatal'' then Some \<lparr>threshold = Some 60\<rparr>
      else if lvl = ''silent'' then Some \<lparr>threshold = None\<rparr>
      else None)"

definition isLevelEnabled :: "pino_logger \<Rightarrow> LogLevel \<Rightarrow> bool" where
  "isLevelEnabled lg l =
     (case threshold lg of None \<Rightarrow> False | Some t \<Rightarrow> t \<le> pino_level_value l)"

text \<open>
  The state the module's methods act on: the value of \<^verbatim>\<open>logCounter\<close> for each label,
  and the lines pino has written (level, metadata, message).
\<close>

type_synonym meta = "(string \<times> string) list"

record telemetry =
  counter :: "LogLevel \<Rightarrow> nat"
  written :: "(LogLevel \<times> meta \<times> string) list"

definition inc :: "LogLevel \<Rightarrow> telemetry \<Rightarrow> telemetry" where
  "inc l t = t\<lparr>counter := (counter t)(l := counter t l + 1)\<rparr>"

definition pino_write :: "pino_logger \<Rightarrow> LogLevel \<Rightarrow> meta \<Rightarrow> string \<Rightarrow> telemetry \<Rightarrow> telemetry" where
  "pino_write lg l m msg t =
     (if isLevelEnabled lg l then t\<lparr>written := written t @ [(l, m, msg)]\<rparr> else t)"

definition log_info :: "pino_logger \<Rightarrow> string \<Rightarrow> meta \<Rightarrow> telemetry \<Rightarrow> telemetry" where
  "log_info lg message m t = pino_write lg INFO m message (inc INFO t)"

definition log_warn :: "pino_logger \<Rightarrow> string \<Rightarrow> meta \<Rightarrow> telemetry \<Rightarrow> telemetry" where
  "log_warn lg message m t = pino_write lg WARN m message (inc WARN t)"

definition log_error :: "pino_logger \<Rightarrow> string \<Rightarrow> meta \<Rightarrow> telemetry \<Rightarrow> telemetry" where
  "log_error lg message m t = pino_write lg ERROR m message (inc ERROR t)"

definition log_debug :: "pino_logger \<Rightarrow> string \<Rightarrow> meta \<Rightarrow> telemetry \<Rightarrow> telemetry" where
  "log_debug lg message m t = pino_write lg DEBUG m message (inc DEBUG t)"

text \<open>The method of \<^verbatim>\<open>log\<close> that belongs to a level, to speak about all four at once.\<close>

fun log_method :: "LogLevel \<Rightarrow> pino_logger \<Rightarrow> string \<Rightarrow> meta \<Rightarrow> telemetry \<Rightarrow> telemetry" where
  "log_method INFO = log_info"
| "log_method WARN = log_warn"
| "log_method ERROR = log_error"
| "log_method DEBUG = log_debug"

section \<open>The daily counter reset (cron/dailyReset)\<close>

subsection \<open>The world the job runs in\<close>

text \<open>
  A thrown value is kept as the text that \<^verbatim>\<open>${error}\<close> renders it to. A result
  \<open>Inl x\<close> is a throw (for the whole job: a rejected promise), \<open>Inr v\<close> a normal
  completion.
\<close>

type_synonym exn = string

text \<open>
  A row of the users table, with the two columns the job writes, and the shape of the
  object that \<^verbatim>\<open>findOne\<close> and \<^verbatim>\<open>findAll\<close> hand out for it: the job tests at run time
  whether the object has \<^verbatim>\<open>getDataValue\<close>, \<^verbatim>\<open>setDataValue\<close>, a \<^verbatim>\<open>requestsToday\<close>
  property and \<^verbatim>\<open>save\<close>.
\<close>

record user =
  uid :: nat
  requestsToday :: nat
  lastRequestDate :: nat
  has_getDataValue :: bool
  has_setDataValue :: bool
  has_requestsToday :: bool
  has_save :: bool

text \<open>The calls the job awaits: commands to the shared store and to the users table.\<close>

datatype cmd =
    RedisSetNX string string nat
  | RedisSet string string
  | RedisExpire string nat
  | RedisEval string string
  | UserUpdate
  | UserCount
  | UserFindOne
  | UserFindAll
  | UserSave nat

text \<open>
  The state: the shared store (a key holds a value and, when it has a time to live, the
  time in milliseconds at which it expires), the users table, the clock that
  \<^verbatim>\<open>Date.now()\<close> reads, the calls made to \<^verbatim>\<open>log\<close> and the commands issued, in order.
\<close>

record world =
  redis_store :: "string \<rightharpoonup> (string \<times> nat option)"
  user_table :: "user list"
  clock :: nat
  log_calls :: "(LogLevel \<times> string) list"
  issued :: "cmd list"

text \<open>
  What the job does not decide: whether \<^verbatim>\<open>getRedisClient()\<close> returns a client or
  \<^verbatim>\<open>null\<close>, the \<^verbatim>\<open>FLY_ALLOC_ID\<close> variable, which awaited commands fail and with what
  error, how long an awaited command takes, and how a date prints
  (\<^verbatim>\<open>toISOString\<close>).
\<close>

record env =
  redis_client :: bool
  FLY_ALLOC_ID :: "string option"
  failure :: "cmd \<Rightarrow> exn option"
  latency :: nat
  toISOString :: "nat \<Rightarrow> string"

text \<open>A number in a template string prints in decimal.\<close>

definition digit_char :: "nat \<Rightarrow> char" where
  "digit_char d =
     (if d = 0 then CHR ''0'' else if d = 1 then CHR ''1'' else if d = 2 then CHR ''2''
      else if d = 3 then CHR ''3'' else if d = 4 then CHR ''4'' else if d = 5 then CHR ''5''
      else if d = 6 then CHR ''6'' else if d = 7 then CHR ''7'' else if d = 8 then CHR ''8''
      else CHR ''9'')"

fun show_nat :: "nat \<Rightarrow> string" where
  "show_nat n = (if n < 10 then [digit_char n] else show_nat (n div 10) @ [digit_char (n mod 10)])"

declare show_nat.simps [simp del]

definition log_call :: "LogLevel \<Rightarrow> string \<Rightarrow> world \<Rightarrow> world" where
  "log_call l msg w = w\<lparr>log_calls := log_calls w @ [(l, msg)]\<rparr>"

text \<open>
  An awaited command: it is issued, time passes, and it either fails with no effect or
  has its effect and returns a value.
\<close>

definition await :: "env \<Rightarrow> cmd \<Rightarrow> (world \<Rightarrow> 'a \<times> world) \<Rightarrow> world \<Rightarrow> (exn + 'a) \<times> world" where
  "await e c eff w =
     (let w1 = w\<lparr>issued := issued w @ [c], clock := clock w + latency e\<rparr>
      in case failure e c of
           Some x \<Rightarrow> (Inl x, w1)
         | None \<Rightarrow> (case eff w1 of (r, w2) \<Rightarrow> (Inr r, w2)))"

subsection \<open>The store's commands\<close>

text \<open>A key that has expired reads as absent.\<close>

definition redis_get :: "world \<Rightarrow> string \<Rightarrow> string option" where
  "redis_get w k =
     (case redis_store w k of
        None \<Rightarrow> None
      | Some (v, None) \<Rightarrow> Some v
      | Some (v, Some t) \<Rightarrow> if clock w < t then Some v else None)"

text \<open>\<^verbatim>\<open>SET key value NX PX ms\<close>: writes only when the key is absent; answers whether it wrote.\<close>

definition set_nx_px :: "string \<Rightarrow> string \<Rightarrow> nat \<Rightarrow> world \<Rightarrow> bool \<times> world" where
  "set_nx_px k v ms w =
     (if redis_get w k = None
      then (True, w\<lparr>redis_store := (redis_store w)(k \<mapsto> (v, Some (clock w + ms)))\<rparr>)
      else (False, w))"

definition set_plain :: "string \<Rightarrow> string \<Rightarrow> world \<Rightarrow> unit \<times> world" where
  "set_plain k v w = ((), w\<lparr>redis_store := (redis_store w)(k \<mapsto> (v, None))\<rparr>)"

definition expire :: "string \<Rightarrow> nat \<Rightarrow> world \<Rightarrow> unit \<times> world" where
  "expire k secs w =
     (case redis_get w k of
        None \<Rightarrow> ((), w)
      | Some v \<Rightarrow> ((), w\<lparr>redis_store := (redis_store w)(k \<mapsto> (v, Some (clock w + secs * 1000)))\<rparr>))"

text \<open>
  The release script of the \<^verbatim>\<open>finally\<close> block:
  \<^verbatim>\<open>if redis.call("get", KEYS[1]) == ARGV[1] then return redis.call("del", KEYS[1]) else return 0 end\<close>
\<close>

definition release_script :: "string \<Rightarrow> string \<Rightarrow> world \<Rightarrow> nat \<times> world" where
  "release_script k v w =
     (if redis_get w k = Some v
      then (1, w\<lparr>redis_store := (redis_store w)(k := None)\<rparr>)
      else (0, w))"

subsection \<open>The users table's commands\<close>

text \<open>\<^verbatim>\<open>User.update({requestsToday: 0, lastRequestDate: d}, {where: {}})\<close>: every row.\<close>

definition update_all :: "nat \<Rightarrow> world \<Rightarrow> nat \<times> world" where
  "update_all d w =
     (length (user_table w),
      w\<lparr>user_table := map (\<lambda>u. u\<lparr>requestsToday := 0, lastRequestDate := d\<rparr>) (user_table w)\<rparr>)"

definition count_users :: "world \<Rightarrow> nat \<times> world" where
  "count_users w = (length (user_table w), w)"

definition findOne :: "world \<Rightarrow> user option \<times> world" where
  "findOne w = ((case user_table w of [] \<Rightarrow> None | u # _ \<Rightarrow> Some u), w)"

definition findAll :: "world \<Rightarrow> user list \<times> world" where
  "findAll w = (user_table w, w)"

text \<open>\<^verbatim>\<open>user.save()\<close> writes the object's values to its row; an object without \<^verbatim>\<open>save\<close>
  makes the call itself throw.\<close>

definition write_row :: "user \<Rightarrow> world \<Rightarrow> unit \<times> world" where
  "write_row u w =
     ((), w\<lparr>user_table := map (\<lambda>r. if uid r = uid u then u else r) (user_table w)\<rparr>)"

definition save :: "env \<Rightarrow> user \<Rightarrow> world \<Rightarrow> (exn + unit) \<times> world" where
  "save e u w =
     (if has_save u then await e (UserSave (uid u)) (write_row u) w
      else (Inl ''TypeError: user.save is not a function'', w))"

subsection \<open>try, catch and finally\<close>

definition try_catch ::
  "(world \<Rightarrow> (exn + 'a) \<times> world) \<Rightarrow> (exn \<Rightarrow> world \<Rightarrow> (exn + 'a) \<times> world) \<Rightarrow> world \<Rightarrow> (exn + 'a) \<times> world" where
  "try_catch body handler w =
     (case body w of
        (Inl x, w1) \<Rightarrow> handler x w1
      | (Inr v, w1) \<Rightarrow> (Inr v, w1))"

text \<open>The finaliser always runs; if it throws, its throw replaces the outcome so far.\<close>

definition try_finally ::
  "(world \<Rightarrow> (exn + 'a) \<times> world) \<Rightarrow> (world \<Rightarrow> (exn + unit) \<times> world) \<Rightarrow> world \<Rightarrow> (exn + 'a) \<times> world" where
  "try_finally body finaliser w =
     (case body w of
        (r, w1) \<Rightarrow>
          (case finaliser w1 of
             (Inl x, w2) \<Rightarrow> (Inl x, w2)
           | (Inr _, w2) \<Rightarrow> (r, w2)))"

subsection \<open>resetDailyRequests\<close>

definition lockKey :: string where
  "lockKey = ''daily_reset_lock''"

definition lockTTL :: nat where
  "lockTTL = 300"

text \<open>\<^verbatim>\<open>process.env.FLY_ALLOC_ID || 'local'\<close>: unset and empty both give \<^verbatim>\<open>local\<close>.\<close>

definition instance_name :: "env \<Rightarrow> string" where
  "instance_name e =
     (case FLY_ALLOC_ID e of None \<Rightarrow> ''local'' | Some s \<Rightarrow> if s = [] then ''local'' else s)"

definition lockValue :: "env \<Rightarrow> world \<Rightarrow> string" where
  "lockValue e w = instance_name e @ ''_'' @ show_nat (clock w)"

text \<open>
  The start of the \<^verbatim>\<open>try\<close> block. The result says whether the job goes on (\<open>True\<close>) or
  returns at once because the lock is taken (\<open>False\<close>).
\<close>

definition acquire_lock :: "env \<Rightarrow> string \<Rightarrow> world \<Rightarrow> (exn + bool) \<times> world" where
  "acquire_lock e lv w =
     (if redis_client e then
        (case await e (RedisSetNX lockKey lv (lockTTL * 1000))
                (set_nx_px lockKey lv (lockTTL * 1000)) w of
           (Inl x, w1) \<Rightarrow> (Inl x, w1)
         | (Inr lockAcquired, w1) \<Rightarrow>
             if \<not> lockAcquired
             then (Inr False,
                   log_call INFO ''Daily reset already running on another instance - skipping'' w1)
             else (Inr True,
                   log_call INFO (''Acquired daily reset lock on instance '' @ instance_name e) w1))
      else (Inr True,
            log_call WARN ''Redis not available - proceeding with reset (single instance mode)'' w))"

definition show_count :: "nat option \<Rightarrow> string" where
  "show_count c = (case c of None \<Rightarrow> ''undefined'' | Some n \<Rightarrow> show_nat n)"

definition verify_sample :: "user option \<Rightarrow> world \<Rightarrow> world" where
  "verify_sample sampleUser w =
     (case sampleUser of
        None \<Rightarrow> w
      | Some u \<Rightarrow>
          (let requestCount =
                 (if has_getDataValue u then Some (requestsToday u)
                  else if has_requestsToday u then Some (requestsToday u)
                  else None);
               w1 = log_call INFO
                      (''Verification - Sample user daily request count: '' @ show_count requestCount) w
           in if requestCount \<noteq> Some 0
              then log_call WARN
                     ''Daily reset verification failed - some users may still have non-zero daily request counts''
                     w1
              else w1))"

definition record_completion :: "env \<Rightarrow> world \<Rightarrow> (exn + unit) \<times> world" where
  "record_completion e w =
     (if redis_client e then
        (case await e (RedisSet ''last_daily_reset'' (toISOString e (clock w)))
                (set_plain ''last_daily_reset'' (toISOString e (clock w))) w of
           (Inl x, w1) \<Rightarrow> (Inl x, w1)
         | (Inr _, w1) \<Rightarrow>
             await e (RedisExpire ''last_daily_reset'' (86400 * 2))
               (expire ''last_daily_reset'' (86400 * 2)) w1)
      else (Inr (), w))"

definition bulk_reset :: "env \<Rightarrow> world \<Rightarrow> (exn + unit) \<times> world" where
  "bulk_reset e w =
     (let startTime = clock w;
          w0 = log_call INFO
                 (''Starting daily API request count reset for all users at ''
                    @ toISOString e (clock w)) w
      in case await e UserUpdate (update_all (clock w0)) w0 of
           (Inl x, w1) \<Rightarrow> (Inl x, w1)
         | (Inr updatedCount, w1) \<Rightarrow>
             (case await e UserCount count_users w1 of
                (Inl x, w2) \<Rightarrow> (Inl x, w2)
              | (Inr totalUsers, w2) \<Rightarrow>
                  (let executionTime = clock w2 - startTime;
                       w3 = log_call INFO
                              (''Successfully reset daily request count for ''
                                 @ show_nat updatedCount @ '' of '' @ show_nat totalUsers
                                 @ '' users (took '' @ show_nat executionTime @ ''ms)'') w2
                   in case await e UserFindOne findOne w3 of
                        (Inl x, w4) \<Rightarrow> (Inl x, w4)
                      | (Inr sampleUser, w4) \<Rightarrow>
                          record_completion e (verify_sample sampleUser w4))))"

definition reset_try :: "env \<Rightarrow> string \<Rightarrow> world \<Rightarrow> (exn + unit) \<times> world" where
  "reset_try e lv w =
     (case acquire_lock e lv w of
        (Inl x, w1) \<Rightarrow> (Inl x, w1)
      | (Inr proceed, w1) \<Rightarrow> if proceed then bulk_reset e w1 else (Inr (), w1))"

text \<open>The loop of the recovery: one user after the other, counting the saved ones.\<close>

fun reset_each :: "env \<Rightarrow> user list \<Rightarrow> nat \<Rightarrow> world \<Rightarrow> (exn + nat) \<times> world" where
  "reset_each e [] successCount w = (Inr successCount, w)"
| "reset_each e (u # us) successCount w =
     (if has_setDataValue u then
        (case save e (u\<lparr>requestsToday := 0, lastRequestDate := clock w\<rparr>) w of
           (Inl x, w1) \<Rightarrow> (Inl x, w1)
         | (Inr _, w1) \<Rightarrow> reset_each e us (successCount + 1) w1)
      else if has_requestsToday u then
        (if has_save u then
           (case save e (u\<lparr>requestsToday := 0, lastRequestDate := clock w\<rparr>) w of
              (Inl x, w1) \<Rightarrow> (Inl x, w1)
            | (Inr _, w1) \<Rightarrow> reset_each e us (successCount + 1) w1)
         else reset_each e us successCount w)
      else reset_each e us successCount w)"

definition recovery :: "env \<Rightarrow> world \<Rightarrow> (exn + unit) \<times> world" where
  "recovery e w =
     (let w0 = log_call INFO
                 ''Attempting alternate daily reset method using findAll + individual updates'' w
      in case await e UserFindAll findAll w0 of
           (Inl x, w1) \<Rightarrow> (Inl x, w1)
         | (Inr users, w1) \<Rightarrow>
             (case reset_each e users 0 w1 of
                (Inl x, w2) \<Rightarrow> (Inl x, w2)
              | (Inr successCount, w2) \<Rightarrow>
                  (Inr (),
                   log_call INFO
                     (''Daily recovery method successful - reset '' @ show_nat successCount
                        @ '' users individually'') w2)))"

definition catch_block :: "env \<Rightarrow> exn \<Rightarrow> world \<Rightarrow> (exn + unit) \<times> world" where
  "catch_block e err w =
     try_catch (recovery e)
       (\<lambda>recoveryError w'.
          (Inr (), log_call ERROR (''Daily recovery attempt also failed: '' @ recoveryError) w'))
       (log_call ERROR (''Error resetting daily request counts: '' @ err) w)"

definition release_lock :: "env \<Rightarrow> string \<Rightarrow> world \<Rightarrow> (exn + unit) \<times> world" where
  "release_lock e lv w =
     (case await e (RedisEval lockKey lv) (release_script lockKey lv) w of
        (Inl x, w1) \<Rightarrow> (Inl x, w1)
      | (Inr _, w1) \<Rightarrow> (Inr (), log_call INFO ''Released daily reset lock'' w1))"

definition finally_block :: "env \<Rightarrow> string \<Rightarrow> world \<Rightarrow> (exn + unit) \<times> world" where
  "finally_block e lv w =
     (if redis_client e then
        try_catch (release_lock e lv)
          (\<lambda>lockError w'.
             (Inr (), log_call WARN (''Error releasing daily lock: '' @ lockError) w')) w
      else (Inr (), w))"

definition resetDailyRequests :: "env \<Rightarrow> world \<Rightarrow> (exn + unit) \<times> world" where
  "resetDailyRequests e w =
     (let lv = lockValue e w
      in try_finally (try_catch (reset_try e lv) (catch_block e)) (finally_block e lv) w)"

subsection \<open>Notions used to state the job's properties\<close>

text \<open>
  A later state extends an earlier one when the calls to \<^verbatim>\<open>log\<close> and the commands
  issued so far are still there, with more after them.
\<close>

definition extends :: "world \<Rightarrow> world \<Rightarrow> bool" where
  "extends w w' \<longleftrightarrow> prefix (log_calls w) (log_calls w') \<and> prefix (issued w) (issued w')"

text \<open>The state in which the \<^verbatim>\<open>finally\<close> block starts: after \<^verbatim>\<open>try\<close> and \<^verbatim>\<open>catch\<close>.\<close>

definition before_finally :: "env \<Rightarrow> world \<Rightarrow> world" where
  "before_finally e w = snd (try_catch (reset_try e (lockValue e w)) (catch_block e) w)"

text \<open>
  The lock is held when the job's \<^verbatim>\<open>SET NX\<close> command reaches the store: the key is
  there and has not expired.
\<close>

definition lock_held :: "env \<Rightarrow> world \<Rightarrow> bool" where
  "lock_held e w \<longleftrightarrow> redis_get (w\<lparr>clock := clock w + latency e\<rparr>) lockKey \<noteq> None"

text \<open>A row after the reset at time \<open>d\<close>.\<close>

definition zeroed :: "nat \<Rightarrow> user \<Rightarrow> user" where
  "zeroed d u = u\<lparr>requestsToday := 0, lastRequestDate := d\<rparr>"

subsection \<open>Concrete runs\<close>

text \<open>
  One user with seven requests today, an empty store, the clock at 100 ms; and an
  environment with a store in which the bulk update, the recovery's \<^verbatim>\<open>findAll\<close> and
  the release script all fail.
\<close>

definition sample_user :: user where
  "sample_user =
     \<lparr>uid = 1, requestsToday = 7, lastRequestDate = 0, has_getDataValue = True,
      has_setDataValue = True, has_requestsToday = True, has_save = True\<rparr>"

definition sample_world :: world where
  "sample_world =
     \<lparr>redis_store = Map.empty, user_table = [sample_user], clock = 100, log_calls = [],
      issued = []\<rparr>"

definition failing_env :: env where
  "failing_env =
     \<lparr>redis_client = True, FLY_ALLOC_ID = None,
      failure = (\<lambda>c. case c of
                   UserUpdate \<Rightarrow> Some ''db down''
                 | UserFindAll \<Rightarrow> Some ''db still down''
                 | RedisEval k v \<Rightarrow> Some ''store gone''
                 | _ \<Rightarrow> None),
      latency = 1, toISOString = show_nat\<rparr>"

text \<open>
  An environment in which nothing fails; the same without a store (single instance
  mode); two instances \<open>a\<close> and \<open>b\<close> of a deployment; and a world in which another
  instance holds the lock.
\<close>

definition plain_env :: env where
  "plain_env =
     \<lparr>redis_client = True, FLY_ALLOC_ID = None, failure = (\<lambda>c. None),
      latency = 1, toISOString = show_nat\<rparr>"

definition local_env :: env where
  "local_env = plain_env\<lparr>redis_client := False\<rparr>"

definition instance_a :: env where
  "instance_a = plain_env\<lparr>FLY_ALLOC_ID := Some ''a''\<rparr>"

definition instance_b :: env where
  "instance_b = plain_env\<lparr>FLY_ALLOC_ID := Some ''b''\<rparr>"

definition held_world :: world where
  "held_world = sample_world\<lparr>redis_store := [lockKey \<mapsto> (''other_5'', Some 5000)]\<rparr>"

text \<open>
  A world in which another unnamed instance that started in the same millisecond holds
  the lock, with the value every unnamed instance computes at that time; and an
  environment whose store refuses the \<^verbatim>\<open>SET NX\<close> command with an error.
\<close>

definition collision_world :: world where
  "collision_world = sample_world\<lparr>redis_store := [lockKey \<mapsto> (''local_100'', Some 300100)]\<rparr>"

definition store_error_env :: env where
  "store_error_env =
     plain_env\<lparr>failure := (\<lambda>c. case c of RedisSetNX k v ms \<Rightarrow> Some ''ECONNRESET'' | _ \<Rightarrow> None)\<rparr>"

section \<open>The WebSocket route (routes/websocket)\<close>

text \<open>
  What the connection handler does that can be seen from outside, in order: calls to
  \<^verbatim>\<open>log\<close>, \<^verbatim>\<open>ws.close(code, reason)\<close>, \<^verbatim>\<open>ClientManager.addClient(ws, id, token)\<close>,
  the ping timer and the handlers it installs on the socket.
\<close>

datatype ws_event =
    LogCall LogLevel string
  | WsClose nat string
  | AddClient string string
  | SetInterval nat
  | On string

text \<open>
  What the handler is given. \<^verbatim>\<open>searchParams\<close> is the outcome of building the URL and
  reading \<^verbatim>\<open>id\<close> and \<^verbatim>\<open>token\<close> from its query (\<^verbatim>\<open>new URL\<close> throws on a malformed
  URL; \<^verbatim>\<open>searchParams.get\<close> gives \<^verbatim>\<open>null\<close> for a parameter that is not there and the
  empty string for one with no value). \<^verbatim>\<open>validateHeadlessSession\<close> and
  \<^verbatim>\<open>ClientManager.addClient\<close> are functions of the repository that the route only
  calls: each resolves to a value or rejects; \<^verbatim>\<open>addClient\<close> resolves to a client
  (\<open>True\<close>) or to \<^verbatim>\<open>null\<close>. \<^verbatim>\<open>ws.close\<close> may throw.
\<close>

record connection =
  searchParams :: "exn + (string option \<times> string option)"
  validateHeadlessSession :: "string \<Rightarrow> string \<Rightarrow> exn + bool"
  addClient :: "string \<Rightarrow> string \<Rightarrow> exn + bool"
  close_throws :: "nat \<Rightarrow> exn option"
  WEBSOCKET_PING_INTERVAL_MS :: nat

text \<open>\<^verbatim>\<open>!id\<close> for a value that is a string or \<^verbatim>\<open>null\<close>.\<close>

definition falsy :: "string option \<Rightarrow> bool" where
  "falsy p \<longleftrightarrow> p = None \<or> p = Some []"

definition ws_close :: "connection \<Rightarrow> nat \<Rightarrow> string \<Rightarrow> ws_event list \<Rightarrow> (exn + unit) \<times> ws_event list" where
  "ws_close c code reason evs =
     (case close_throws c code of
        Some x \<Rightarrow> (Inl x, evs @ [WsClose code reason])
      | None \<Rightarrow> (Inr (), evs @ [WsClose code reason]))"

definition reject_missing :: "connection \<Rightarrow> (exn + unit) \<times> ws_event list" where
  "reject_missing c =
     ws_close c 1008 ''Missing client ID or token''
       [LogCall WARN ''Rejecting WebSocket connection: missing id or token'']"

text \<open>The handler from the validation on, for an id and a token that are there.\<close>

definition validate_and_register :: "connection \<Rightarrow> string \<Rightarrow> string \<Rightarrow> (exn + unit) \<times> ws_event list" where
  "validate_and_register c i t =
     (case validateHeadlessSession c i t of
        Inl x \<Rightarrow> (Inl x, [])
      | Inr isValid \<Rightarrow>
          if \<not> isValid
          then ws_close c 1008 ''Invalid headless session''
                 [LogCall WARN (''Rejecting invalid headless client: '' @ i)]
          else (case addClient c i t of
                  Inl x \<Rightarrow> (Inl x, [AddClient i t])
                | Inr client \<Rightarrow>
                    if \<not> client then (Inr (), [AddClient i t])
                    else (Inr (),
                          [AddClient i t, SetInterval (WEBSOCKET_PING_INTERVAL_MS c),
                           On ''close'', On ''pong'', On ''error''])))"

text \<open>
  What the three handlers installed on the socket do when they fire, for the connection
  of \<open>i\<close>: the timer is cleared and the client manager is asked to remove the client of
  that id; a pong updates the client's last-seen time.
\<close>

datatype handler_action =
    ClearInterval
  | RemoveClient string
  | UpdateLastSeen
  | LogError string

definition on_close :: "string \<Rightarrow> handler_action list" where
  "on_close i = [ClearInterval, RemoveClient i]"

definition on_pong :: "string \<Rightarrow> handler_action list" where
  "on_pong i = [UpdateLastSeen]"

definition on_error :: "string \<Rightarrow> exn \<Rightarrow> handler_action list" where
  "on_error i err =
     [ClearInterval, LogError (''WebSocket error for client '' @ i @ '': '' @ err),
      RemoveClient i]"

text \<open>The \<^verbatim>\<open>try\<close> block of the handler.\<close>

definition connection_try :: "connection \<Rightarrow> (exn + unit) \<times> ws_event list" where
  "connection_try c =
     (case searchParams c of
        Inl x \<Rightarrow> (Inl x, [])
      | Inr (qid, qtoken) \<Rightarrow>
          if falsy qid \<or> falsy qtoken then reject_missing c
          else (case (qid, qtoken) of
                  (Some i, Some t) \<Rightarrow> validate_and_register c i t
                | _ \<Rightarrow> reject_missing c))"

text \<open>
  The handler of \<^verbatim>\<open>wss.on("connection", ...)\<close>: the \<^verbatim>\<open>try\<close> block, and in the
  \<^verbatim>\<open>catch\<close> the error log and \<^verbatim>\<open>ws.close(1011, "Server error")\<close>, whose own throw is
  ignored.
\<close>

definition on_connection :: "connection \<Rightarrow> ws_event list" where
  "on_connection c =
     (case connection_try c of
        (Inl x, evs) \<Rightarrow>
          evs @ [LogCall ERROR (''WebSocket connection error: '' @ x),
                 WsClose 1011 ''Server error'']
      | (Inr _, evs) \<Rightarrow> evs)"

text \<open>
  A world that connects with a valid session, and the same connection with an \<^verbatim>\<open>id\<close>
  parameter that is there but empty (\<^verbatim>\<open>?id=&token=secret\<close>).
\<close>

definition valid_connection :: connection where
  "valid_connection =
     \<lparr>searchParams = Inr (Some ''W1'', Some ''secret''),
      validateHeadlessSession = (\<lambda>i t. Inr (t = ''secret'')),
      addClient = (\<lambda>i t. Inr True),
      close_throws = (\<lambda>code. None),
      WEBSOCKET_PING_INTERVAL_MS = 20000\<rparr>"

definition empty_id_connection :: connection where
  "empty_id_connection =
     \<lparr>searchParams = Inr (Some [], Some ''secret''),
      validateHeadlessSession = (\<lambda>i t. Inr (t = ''secret'')),
      addClient = (\<lambda>i t. Inr True),
      close_throws = (\<lambda>code. None),
      WEBSOCKET_PING_INTERVAL_MS = 20000\<rparr>"

section \<open>The entity routes (routes/api/entity)\<close>

subsection \<open>The route table\<close>

datatype verb = GET | POST | PUT | DELETE

datatype source = Query | Body

text \<open>The \<^verbatim>\<open>from\<close> of a parameter: one source, or a list of sources.\<close>

datatype param_from = From source | FromAny "source list"

datatype param_type = PString | PNumber | PBoolean | PObject

record param =
  param_name :: string
  param_from :: param_from
  param_type :: param_type

record route =
  verb :: verb
  path :: string
  route_type :: string
  requiredParams :: "param list"
  optionalParams :: "param list"

definition get_route :: route where
  "get_route =
     \<lparr>verb = GET, path = ''/get'', route_type = ''entity'',
      requiredParams =
        [\<lparr>param_name = ''clientId'', param_from = From Query, param_type = PString\<rparr>],
      optionalParams =
        [\<lparr>param_name = ''uuid'', param_from = From Query, param_type = PString\<rparr>,
         \<lparr>param_name = ''selected'', param_from = From Query, param_type = PBoolean\<rparr>,
         \<lparr>param_name = ''actor'', param_from = From Query, param_type = PBoolean\<rparr>]\<rparr>"

definition create_route :: route where
  "create_route =
     \<lparr>verb = POST, path = ''/create'', route_type = ''create'',
      requiredParams =
        [\<lparr>param_name = ''clientId'', param_from = From Query, param_type = PString\<rparr>,
         \<lparr>param_name = ''entityType'', param_from = From Body, param_type = PString\<rparr>,
         \<lparr>param_name = ''data'', param_from = From Body, param_type = PObject\<rparr>],
      optionalParams =
        [\<lparr>param_name = ''folder'', param_from = From Body, param_type = PString\<rparr>]\<rparr>"

definition update_route :: route where
  "update_route =
     \<lparr>verb = PUT, path = ''/update'', route_type = ''update'',
      requiredParams =
        [\<lparr>param_name = ''clientId'', param_from = From Query, param_type = PString\<rparr>,
         \<lparr>param_name = ''data'', param_from = From Body, param_type = PObject\<rparr>],
      optionalParams =
        [\<lparr>param_name = ''uuid'', param_from = From Query, param_type = PString\<rparr>,
         \<lparr>param_name = ''selected'', param_from = From Query, param_type = PBoolean\<rparr>,
         \<lparr>param_name = ''actor'', param_from = From Query, param_type = PBoolean\<rparr>]\<rparr>"

definition delete_route :: route where
  "delete_route =
     \<lparr>verb = DELETE, path = ''/delete'', route_type = ''delete'',
      requiredParams =
        [\<lparr>param_name = ''clientId'', param_from = From Query, param_type = PString\<rparr>],
      optionalParams =
        [\<lparr>param_name = ''uuid'', param_from = From Query, param_type = PString\<rparr>,
         \<lparr>param_name = ''selected'', param_from = From Query, param_type = PBoolean\<rparr>]\<rparr>"

definition give_route :: route where
  "give_route =
     \<lparr>verb = POST, path = ''/give'', route_type = ''give'',
      requiredParams =
        [\<lparr>param_name = ''clientId'', param_from = FromAny [Body, Query], param_type = PString\<rparr>],
      optionalParams =
        [\<lparr>param_name = ''fromUuid'', param_from = From Body, param_type = PString\<rparr>,
         \<lparr>param_name = ''toUuid'', param_from = From Body, param_type = PString\<rparr>,
         \<lparr>param_name = ''selected'', param_from = From Body, param_type = PBoolean\<rparr>,
         \<lparr>param_name = ''itemUuid'', param_from = From Body, param_type = PString\<rparr>,
         \<lparr>param_name = ''itemName'', param_from = From Body, param_type = PString\<rparr>,
         \<lparr>param_name = ''quantity'', param_from = From Body, param_type = PNumber\<rparr>]\<rparr>"

definition remove_route :: route where
  "remove_route =
     \<lparr>verb = POST, path = ''/remove'', route_type = ''remove'',
      requiredParams =
        [\<lparr>param_name = ''clientId'', param_from = FromAny [Body, Query], param_type = PString\<rparr>],
      optionalParams =
        [\<lparr>param_name = ''actorUuid'', param_from = From Body, param_type = PString\<rparr>,
         \<lparr>param_name = ''selected'', param_from = From Body, param_type = PBoolean\<rparr>,
         \<lparr>param_name = ''itemUuid'', param_from = From Body, param_type = PString\<rparr>,
         \<lparr>param_name = ''itemName'', param_from = From Body, param_type = PString\<rparr>,
         \<lparr>param_name = ''quantity'', param_from = From Body, param_type = PNumber\<rparr>]\<rparr>"

definition decrease_route :: route where
  "decrease_route =
     \<lparr>verb = POST, path = ''/decrease'', route_type = ''decrease'',
      requiredParams =
        [\<lparr>param_name = ''clientId'', param_from = From Query, param_type = PString\<rparr>,
         \<lparr>param_name = ''attribute'', param_from = From Body, param_type = PString\<rparr>,
         \<lparr>param_name = ''amount'', param_from = From Body, param_type = PNumber\<rparr>],
      optionalParams =
        [\<lparr>param_name = ''uuid'', param_from = From Query, param_type = PString\<rparr>,
         \<lparr>param_name = ''selected'', param_from = From Query, param_type = PBoolean\<rparr>]\<rparr>"

definition increase_route :: route where
  "increase_route =
     \<lparr>verb = POST, path = ''/increase'', route_type = ''increase'',
      requiredParams =
        [\<lparr>param_name = ''clientId'', param_from = From Query, param_type = PString\<rparr>,
         \<lparr>param_name = ''attribute'', param_from = From Body, param_type = PString\<rparr>,
         \<lparr>param_name = ''amount'', param_from = From Body, param_type = PNumber\<rparr>],
      optionalParams =
        [\<lparr>param_name = ''uuid'', param_from = From Query, param_type = PString\<rparr>,
         \<lparr>param_name = ''selected'', param_from = From Query, param_type = PBoolean\<rparr>]\<rparr>"

definition kill_route :: route where
  "kill_route =
     \<lparr>verb = POST, path = ''/kill'', route_type = ''kill'',
      requiredParams =
        [\<lparr>param_name = ''clientId'', param_from = From Query, param_type = PString\<rparr>],
      optionalParams =
        [\<lparr>param_name = ''uuid'', param_from = From Query, param_type = PString\<rparr>,
         \<lparr>param_name = ''selected'', param_from = From Query, param_type = PBoolean\<rparr>]\<rparr>"

text \<open>The router, in the order the routes are registered.\<close>

definition entityRouter :: "route list" where
  "entityRouter =
     [get_route, create_route, update_route, delete_route, give_route, remove_route,
      decrease_route, increase_route, kill_route]"

fun sources :: "param_from \<Rightarrow> source list" where
  "sources (From s) = [s]"
| "sources (FromAny ss) = ss"

text \<open>The sources a route declares for a required parameter, if it requires it.\<close>

definition required_from :: "route \<Rightarrow> string \<Rightarrow> source list option" where
  "required_from r n =
     (case find (\<lambda>p. param_name p = n) (requiredParams r) of
        None \<Rightarrow> None
      | Some p \<Rightarrow> Some (sources (param_from p)))"

subsection \<open>POST /entity/create: validateParams\<close>

text \<open>
  The values a request body can hold. Of a number only its being a number matters here.
\<close>

datatype json =
    JNull
  | JBool bool
  | JNumber int
  | JString string
  | JArray "json list"
  | JObject "(string \<times> json) list"

text \<open>
  \<^verbatim>\<open>value.key\<close>: \<open>None\<close> is \<^verbatim>\<open>undefined\<close>. Reading a property of \<^verbatim>\<open>null\<close> throws; an
  object parsed from JSON keeps the last of several entries with one key; the other
  values have no such property.
\<close>

fun get_prop :: "json \<Rightarrow> string \<Rightarrow> exn + json option" where
  "get_prop JNull k = Inl ''TypeError: Cannot read properties of null''"
| "get_prop (JObject kvs) k = Inr (map_of (rev kvs) k)"
| "get_prop (JBool b) k = Inr None"
| "get_prop (JNumber n) k = Inr None"
| "get_prop (JString s) k = Inr None"
| "get_prop (JArray xs) k = Inr None"

text \<open>The parameters of the route, as its \<^verbatim>\<open>requiredParams\<close> and \<^verbatim>\<open>optionalParams\<close> name and type them.\<close>

record create_params =
  clientId :: string
  entityType :: string
  data :: json
  folder :: "string option"

record rejection =
  error :: string
  suggestion :: string

text \<open>
  The \<^verbatim>\<open>validateParams\<close> of the create route: its result (\<open>Inr None\<close> is \<^verbatim>\<open>null\<close>)
  and the calls to \<^verbatim>\<open>log\<close> it makes. \<^verbatim>\<open>validateScript\<close> is imported from
  \<^verbatim>\<open>./utility\<close> and is a parameter here: a predicate on whatever \<^verbatim>\<open>params.data.command\<close>
  is.
\<close>

definition validateParams ::
  "(json option \<Rightarrow> bool) \<Rightarrow> create_params \<Rightarrow> (exn + rejection option) \<times> (LogLevel \<times> string) list" where
  "validateParams validateScript params =
     (if entityType params = ''Macro'' then
        (case get_prop (data params) ''command'' of
           Inl x \<Rightarrow> (Inl x, [])
         | Inr command \<Rightarrow>
             if \<not> validateScript command
             then (Inr (Some
                     \<lparr>error = ''Script contains forbidden patterns'',
                      suggestion = ''Ensure the script does not access localStorage, sessionStorage, or eval()''\<rparr>),
                   [(WARN, ''Request for '' @ clientId params @ '' contains forbidden patterns in script'')])
             else (Inr None, []))
      else (Inr None, []))"

subsection \<open>The dispatcher\<close>

text \<open>
  Modelled from the spec: what a dispatch answers and sends (sections 4.5 and 6): an HTTP
  response (none when the caller hung up), and the envelopes handed to the world's
  session.
\<close>

datatype http_body =
    Rejected rejection
  | Failed string
  | WorldError string
  | WorldPayload json

record http_response =
  status :: nat
  body :: http_body

record envelope =
  envelope_type :: string
  requestId :: string
  target :: string
  payload :: create_params

datatype outcome = Reply "string option" json | Timeout | SessionLoss | Cancellation

text \<open>
  Modelled from the spec: what a dispatch meets (section 4.5): the parameters extracted
  from the request (none when a required one is missing), whether the registry has a
  session for a \<^verbatim>\<open>clientId\<close>, the request id allocated, whether the send succeeds, and
  how the wait ends.
\<close>

record dispatch_input =
  extracted :: "create_params option"
  session_for :: "string \<Rightarrow> bool"
  allocated :: string
  send_ok :: bool
  awaited :: outcome

text \<open>
  Modelled from the spec: \<^verbatim>\<open>createApiRoute\<close> (routes/route-helpers), the dispatcher every
  route is built with, is imported by the entity routes and is not among the sources.
  This follows the six steps of section 4.5: missing required parameter, 400; a rejection
  by \<^verbatim>\<open>validateParams\<close>, 400 with its payload; no session, 404; send failure, 502; then
  the reply with an error, 422, without one, 200, timeout 504, session loss 502,
  cancellation no response. A throw of \<^verbatim>\<open>validateParams\<close> is an internal error, 500
  (section 7).
\<close>

definition dispatch ::
  "string \<Rightarrow> (create_params \<Rightarrow> exn + rejection option) \<Rightarrow> dispatch_input \<Rightarrow>
     http_response option \<times> envelope list" where
  "dispatch ty validate inp =
     (case extracted inp of
        None \<Rightarrow> (Some \<lparr>status = 400, body = Failed ''MissingParameter''\<rparr>, [])
      | Some params \<Rightarrow>
          (case validate params of
             Inl x \<Rightarrow> (Some \<lparr>status = 500, body = Failed ''InternalError''\<rparr>, [])
           | Inr (Some rej) \<Rightarrow> (Some \<lparr>status = 400, body = Rejected rej\<rparr>, [])
           | Inr None \<Rightarrow>
               if \<not> session_for inp (clientId params)
               then (Some \<lparr>status = 404, body = Failed ''WorldOffline''\<rparr>, [])
               else if \<not> send_ok inp
               then (Some \<lparr>status = 502, body = Failed ''UpstreamSendFailed''\<rparr>, [])
               else
                 (let sent = [\<lparr>envelope_type = ty, requestId = allocated inp,
                                target = clientId params, payload = params\<rparr>]
                  in case awaited inp of
                       Reply (Some err) p \<Rightarrow> (Some \<lparr>status = 422, body = WorldError err\<rparr>, sent)
                     | Reply None p \<Rightarrow> (Some \<lparr>status = 200, body = WorldPayload p\<rparr>, sent)
                     | Timeout \<Rightarrow> (Some \<lparr>status = 504, body = Failed ''UpstreamTimeout''\<rparr>, sent)
                     | SessionLoss \<Rightarrow>
                         (Some \<lparr>status = 502, body = Failed ''WorldDisconnected''\<rparr>, sent)
                     | Cancellation \<Rightarrow> (None, sent))))"

text \<open>
  A request to create a macro whose command calls \<^verbatim>\<open>eval\<close>, a denylist that refuses
  just that command, and a dispatch for which everything after the validation would go
  well.
\<close>

definition macro_request :: create_params where
  "macro_request =
     \<lparr>clientId = ''W1'', entityType = ''Macro'',
      data = JObject [(''name'', JString ''m''), (''command'', JString ''eval(1)'')],
      folder = None\<rparr>"

definition toy_denylist :: "json option \<Rightarrow> bool" where
  "toy_denylist command \<longleftrightarrow> command \<noteq> Some (JString ''eval(1)'')"

definition smooth_dispatch :: "create_params \<Rightarrow> dispatch_input" where
  "smooth_dispatch params =
     \<lparr>extracted = Some params, session_for = (\<lambda>w. True), allocated = ''r-1'',
      send_ok = True, awaited = Reply None JNull\<rparr>"

section \<open>Properties\<close>

subsection \<open>Telemetry\<close>

lemma default_logger: "pino (configured_level None) = Some \<lparr>threshold = Some 30\<rparr>"
  by (simp add: pino_def configured_level_def)

lemma default_logger_suppresses_debug: "\<not> isLevelEnabled \<lparr>threshold = Some 30\<rparr> DEBUG"
  by (simp add: isLevelEnabled_def)

lemma counter_pino_write: "counter (pino_write lg l m msg t) = counter t"
  by (simp add: pino_write_def)

lemma counter_log_method:
  "counter (log_method l lg msg m t) = (counter t)(l := counter t l + 1)"
  by (cases l) (simp_all add: log_info_def log_warn_def log_error_def log_debug_def
      counter_pino_write inc_def)

lemma written_log_method:
  "written (log_method l lg msg m t) =
     (if isLevelEnabled lg l then written t @ [(l, m, msg)] else written t)"
  by (cases l) (simp_all add: log_info_def log_warn_def log_error_def log_debug_def
      pino_write_def inc_def)

text \<open>
  C10. Each of the four methods adds exactly one to the counter under its own level's
  label and leaves the other labels alone, whatever the logger's threshold is; when the
  threshold suppresses the line (nothing is written) the counter is incremented all the
  same.
\<close>

theorem log_counts_every_call:
  "counter (log_info lg msg m t) INFO = counter t INFO + 1
   \<and> counter (log_warn lg msg m t) WARN = counter t WARN + 1
   \<and> counter (log_error lg msg m t) ERROR = counter t ERROR + 1
   \<and> counter (log_debug lg msg m t) DEBUG = counter t DEBUG + 1
   \<and> counter (log_method l lg msg m t) l = counter t l + 1
   \<and> (\<forall>l'. l' \<noteq> l \<longrightarrow> counter (log_method l lg msg m t) l' = counter t l')
   \<and> (\<not> isLevelEnabled lg l \<longrightarrow>
        written (log_method l lg msg m t) = written t
        \<and> counter (log_method l lg msg m t) l = counter t l + 1)"
proof -
  have a: "counter (log_method l' lg msg m t) l' = counter t l' + 1" for l'
    by (simp add: counter_log_method)
  have "counter (log_method INFO lg msg m t) INFO = counter t INFO + 1"
    and "counter (log_method WARN lg msg m t) WARN = counter t WARN + 1"
    and "counter (log_method ERROR lg msg m t) ERROR = counter t ERROR + 1"
    and "counter (log_method DEBUG lg msg m t) DEBUG = counter t DEBUG + 1"
    by (rule a)+
  then show ?thesis
    by (simp add: counter_log_method written_log_method)
qed

theorem log_counts_every_call_witness:
  "\<not> isLevelEnabled \<lparr>threshold = Some 30\<rparr> DEBUG
   \<and> DEBUG \<noteq> INFO
   \<and> written (log_debug \<lparr>threshold = Some 30\<rparr> ''ping'' [] \<lparr>counter = (\<lambda>_. 0), written = []\<rparr>) = []
   \<and> counter (log_debug \<lparr>threshold = Some 30\<rparr> ''ping'' [] \<lparr>counter = (\<lambda>_. 0), written = []\<rparr>) DEBUG = 1
   \<and> counter (log_debug \<lparr>threshold = Some 30\<rparr> ''ping'' [] \<lparr>counter = (\<lambda>_. 0), written = []\<rparr>) INFO = 0"
  using log_counts_every_call [of "\<lparr>threshold = Some 30\<rparr>" "''ping''" "[]"
      "\<lparr>counter = (\<lambda>_. 0), written = []\<rparr>" DEBUG]
  by (simp add: isLevelEnabled_def)

text \<open>
  C7 (as amended). The counter the module creates is named \<^verbatim>\<open>pino_logs_total\<close>; its only
  label is \<^verbatim>\<open>level\<close>; it is the one metric registered in the exported registry, which
  also collects the default process metrics and labels everything with the application's
  name.
\<close>

theorem logCounter_exposed:
  "name logCounter = ''pino_logs_total''
   \<and> labelNames logCounter = [''level'']
   \<and> registered register = [logCounter]
   \<and> defaultMetrics register
   \<and> defaultLabels register = [(''app'', ''foundryvtt-rest-api-relay'')]"
  by (simp add: logCounter_def register_def collectDefaultMetrics_def registerMetric_def
      setDefaultLabels_def new_Registry_def)

text \<open>
  C7 as stated fails: no metric of the registry is named \<^verbatim>\<open>logs_total\<close>.
\<close>

theorem logCounter_name_counterexample:
  "name logCounter \<noteq> ''logs_total''
   \<and> ''logs_total'' \<notin> set (map name (registered register))"
  by (simp add: logCounter_def register_def collectDefaultMetrics_def registerMetric_def
      setDefaultLabels_def new_Registry_def)

subsection \<open>The daily reset\<close>

lemma catch_block_resolves: "fst (catch_block e err w) = Inr ()"
  by (simp add: catch_block_def try_catch_def split: prod.splits sum.splits)

lemma finally_block_resolves: "fst (finally_block e lv w) = Inr ()"
  by (simp add: finally_block_def try_catch_def split: prod.splits sum.splits)

lemma guarded_resolves: "fst (try_catch (reset_try e lv) (catch_block e) w) = Inr ()"
  using catch_block_resolves
  by (auto simp add: try_catch_def split: prod.splits sum.splits)

lemma extends_refl [simp]: "extends w w"
  by (simp add: extends_def)

lemma extends_trans: "extends a b \<Longrightarrow> extends b c \<Longrightarrow> extends a c"
  by (auto simp add: extends_def)

lemma extends_log_call [simp]: "extends w (log_call l m w)"
  by (simp add: extends_def log_call_def)

lemma extends_log_call': "extends a w \<Longrightarrow> extends a (log_call l m w)"
  using extends_trans [OF _ extends_log_call] .

lemma extends_logD: "extends w w' \<Longrightarrow> x \<in> set (log_calls w) \<Longrightarrow> x \<in> set (log_calls w')"
  by (auto simp add: extends_def prefix_def)

lemma extends_issuedD: "extends w w' \<Longrightarrow> c \<in> set (issued w) \<Longrightarrow> c \<in> set (issued w')"
  by (auto simp add: extends_def prefix_def)

lemma extends_await:
  assumes "\<And>v. log_calls (snd (eff v)) = log_calls v \<and> issued (snd (eff v)) = issued v"
  shows "extends w (snd (await e c eff w))"
proof (cases "failure e c")
  case None
  let ?w1 = "w\<lparr>issued := issued w @ [c], clock := clock w + latency e\<rparr>"
  obtain r w2 where eff: "eff ?w1 = (r, w2)" by (cases "eff ?w1")
  have "log_calls w2 = log_calls w \<and> issued w2 = issued w @ [c]"
    using assms [of ?w1] eff by simp
  then show ?thesis using None eff by (simp add: await_def extends_def)
next
  case (Some x)
  then show ?thesis by (simp add: await_def extends_def)
qed

lemma issued_await:
  assumes "\<And>v. issued (snd (eff v)) = issued v"
  shows "issued (snd (await e c eff w)) = issued w @ [c]"
proof (cases "failure e c")
  case None
  let ?w1 = "w\<lparr>issued := issued w @ [c], clock := clock w + latency e\<rparr>"
  obtain r w2 where eff: "eff ?w1 = (r, w2)" by (cases "eff ?w1")
  have "issued w2 = issued w @ [c]"
    using assms [of ?w1] eff by simp
  then show ?thesis using None eff by (simp add: await_def)
next
  case (Some x)
  then show ?thesis by (simp add: await_def)
qed

lemma extends_save: "extends w (snd (save e u w))"
  by (simp add: save_def extends_await write_row_def)

lemma extends_saveD: "save e u w = (r, w1) \<Longrightarrow> extends w w1"
  using extends_save [of w e u] by simp

lemma extends_reset_each: "extends w (snd (reset_each e us n w))"
proof (induction us arbitrary: n w)
  case Nil
  then show ?case by simp
next
  case (Cons u us)
  have step: "extends w (snd (reset_each e us k w1))"
    if "save e u' w = (r, w1)" for u' r w1 k
    using extends_saveD [OF that] Cons.IH [of w1 k] by (rule extends_trans)
  show ?case
    using Cons.IH [of w]
    by (auto split: prod.splits sum.splits dest: step extends_saveD)
qed


lemma extends_awaitD:
  "await e c eff w = (r, w1) \<Longrightarrow>
   (\<And>v. log_calls (snd (eff v)) = log_calls v \<and> issued (snd (eff v)) = issued v) \<Longrightarrow>
   extends w w1"
  using extends_await [of eff w e c] by simp

lemma in_issued_await: "c \<in> set (issued (snd (await e c eff w)))"
  if "\<And>v. issued (snd (eff v)) = issued v"
  by (simp add: issued_await that)

lemma extends_recovery: "extends w (snd (recovery e w))"
proof -
  let ?w0 = "log_call INFO
      ''Attempting alternate daily reset method using findAll + individual updates'' w"
  have a: "extends w ?w0" by simp
  obtain r w1 where aw: "await e UserFindAll findAll ?w0 = (r, w1)"
    by (cases "await e UserFindAll findAll ?w0")
  have b: "extends ?w0 w1"
    using aw by (rule extends_awaitD) (simp add: findAll_def)
  have c: "extends w w1" using a b by (rule extends_trans)
  show ?thesis
  proof (cases r)
    case (Inl x)
    then show ?thesis using aw c by (simp add: recovery_def)
  next
    case (Inr users)
    obtain q w2 where re: "reset_each e users 0 w1 = (q, w2)"
      by (cases "reset_each e users 0 w1")
    have d: "extends w w2"
      using c extends_reset_each [of w1 e users 0] re by (auto intro: extends_trans)
    show ?thesis
      using aw Inr re d by (cases q) (simp_all add: recovery_def extends_log_call')
  qed
qed

lemma recovery_issues_findAll: "UserFindAll \<in> set (issued (snd (recovery e w)))"
proof -
  let ?w0 = "log_call INFO
      ''Attempting alternate daily reset method using findAll + individual updates'' w"
  obtain r w1 where aw: "await e UserFindAll findAll ?w0 = (r, w1)"
    by (cases "await e UserFindAll findAll ?w0")
  have b: "UserFindAll \<in> set (issued w1)"
    using in_issued_await [of findAll UserFindAll e ?w0] aw by (simp add: findAll_def)
  show ?thesis
  proof (cases r)
    case (Inl x)
    then show ?thesis using aw b by (simp add: recovery_def)
  next
    case (Inr users)
    obtain q w2 where re: "reset_each e users 0 w1 = (q, w2)"
      by (cases "reset_each e users 0 w1")
    have "extends w1 w2" using extends_reset_each [of w1 e users 0] re by simp
    then have d: "UserFindAll \<in> set (issued w2)" using b by (rule extends_issuedD)
    show ?thesis
      using aw Inr re d by (cases q) (simp_all add: recovery_def log_call_def)
  qed
qed

lemma catch_block_unfold:
  "catch_block e err w =
     (case recovery e (log_call ERROR (''Error resetting daily request counts: '' @ err) w) of
        (Inl y, w2) \<Rightarrow> (Inr (), log_call ERROR (''Daily recovery attempt also failed: '' @ y) w2)
      | (Inr v, w2) \<Rightarrow> (Inr v, w2))"
  by (simp add: catch_block_def try_catch_def split: prod.splits sum.splits)

lemma extends_catch_block:
  "extends (log_call ERROR (''Error resetting daily request counts: '' @ err) w)
     (snd (catch_block e err w))"
proof -
  let ?w0 = "log_call ERROR (''Error resetting daily request counts: '' @ err) w"
  obtain r w2 where re: "recovery e ?w0 = (r, w2)" by (cases "recovery e ?w0")
  have "extends ?w0 w2" using extends_recovery [of ?w0 e] re by simp
  then show ?thesis
    using re by (cases r) (simp_all add: catch_block_unfold extends_log_call')
qed

lemma catch_block_logs_error:
  "(ERROR, ''Error resetting daily request counts: '' @ err) \<in> set (log_calls (snd (catch_block e err w)))"
  by (rule extends_logD [OF extends_catch_block]) (simp add: log_call_def)

lemma catch_block_issues_findAll:
  "UserFindAll \<in> set (issued (snd (catch_block e err w)))"
proof -
  let ?w0 = "log_call ERROR (''Error resetting daily request counts: '' @ err) w"
  obtain r w2 where re: "recovery e ?w0 = (r, w2)" by (cases "recovery e ?w0")
  have "UserFindAll \<in> set (issued w2)" using recovery_issues_findAll [of e ?w0] re by simp
  then show ?thesis
    using re by (cases r) (simp_all add: catch_block_unfold log_call_def)
qed

lemma catch_block_logs_recovery_error:
  "recovery e (log_call ERROR (''Error resetting daily request counts: '' @ err) w) = (Inl y, w2) \<Longrightarrow>
   snd (catch_block e err w) = log_call ERROR (''Daily recovery attempt also failed: '' @ y) w2"
  by (simp add: catch_block_unfold)

lemma finally_block_unfold:
  "finally_block e lv w =
     (if redis_client e then
        (case await e (RedisEval lockKey lv) (release_script lockKey lv) w of
           (Inl z, w1) \<Rightarrow> (Inr (), log_call WARN (''Error releasing daily lock: '' @ z) w1)
         | (Inr v, w1) \<Rightarrow> (Inr (), log_call INFO ''Released daily reset lock'' w1))
      else (Inr (), w))"
  by (simp add: finally_block_def try_catch_def release_lock_def split: prod.splits sum.splits)

lemma extends_finally_block: "extends w (snd (finally_block e lv w))"
proof (cases "redis_client e")
  case True
  obtain r w1 where aw: "await e (RedisEval lockKey lv) (release_script lockKey lv) w = (r, w1)"
    by (cases "await e (RedisEval lockKey lv) (release_script lockKey lv) w")
  have "extends w w1" using aw by (rule extends_awaitD) (simp add: release_script_def)
  then show ?thesis using True aw by (cases r) (simp_all add: finally_block_unfold extends_log_call')
next
  case False
  then show ?thesis by (simp add: finally_block_unfold)
qed

lemma job_unfold:
  "resetDailyRequests e w =
     (Inr (), snd (finally_block e (lockValue e w) (before_finally e w)))"
proof -
  obtain r w1 where a: "try_catch (reset_try e (lockValue e w)) (catch_block e) w = (r, w1)"
    by (cases "try_catch (reset_try e (lockValue e w)) (catch_block e) w")
  have r: "r = Inr ()" using guarded_resolves [of e "lockValue e w" w] a by simp
  obtain q w2 where b: "finally_block e (lockValue e w) w1 = (q, w2)"
    by (cases "finally_block e (lockValue e w) w1")
  have q: "q = Inr ()" using finally_block_resolves [of e "lockValue e w" w1] b by simp
  show ?thesis
    by (simp add: resetDailyRequests_def try_finally_def before_finally_def a b r q)
qed

lemma before_finally_caught:
  "reset_try e (lockValue e w) w = (Inl x, w1) \<Longrightarrow> before_finally e w = snd (catch_block e x w1)"
  by (simp add: before_finally_def try_catch_def)

lemma before_finally_completed:
  "reset_try e (lockValue e w) w = (Inr v, w1) \<Longrightarrow> before_finally e w = w1"
  by (simp add: before_finally_def try_catch_def)

lemma extends_job_tail: "extends (before_finally e w) (snd (resetDailyRequests e w))"
  by (simp add: job_unfold extends_finally_block)


lemma bulk_reset_update_fails:
  "failure e UserUpdate = Some x \<Longrightarrow> fst (bulk_reset e w) = Inl x"
  by (simp add: bulk_reset_def await_def Let_def)

lemma reset_try_update_fails:
  "acquire_lock e lv w = (Inr True, wa) \<Longrightarrow> failure e UserUpdate = Some x \<Longrightarrow>
   fst (reset_try e lv w) = Inl x"
  using bulk_reset_update_fails [of e x wa]
  by (simp add: reset_try_def split: prod.splits sum.splits)

lemma caught_error_logged:
  assumes "fst (reset_try e (lockValue e w) w) = Inl x"
  shows "(ERROR, ''Error resetting daily request counts: '' @ x)
           \<in> set (log_calls (snd (resetDailyRequests e w)))"
    and "UserFindAll \<in> set (issued (snd (resetDailyRequests e w)))"
proof -
  obtain w1 where rt: "reset_try e (lockValue e w) w = (Inl x, w1)"
    using assms by (cases "reset_try e (lockValue e w) w") simp
  have bf: "before_finally e w = snd (catch_block e x w1)"
    using rt by (rule before_finally_caught)
  show "(ERROR, ''Error resetting daily request counts: '' @ x)
           \<in> set (log_calls (snd (resetDailyRequests e w)))"
    using extends_logD [OF extends_job_tail [of e w]] catch_block_logs_error [of x e w1] bf
    by simp
  show "UserFindAll \<in> set (issued (snd (resetDailyRequests e w)))"
    using extends_issuedD [OF extends_job_tail [of e w]] catch_block_issues_findAll [of e x w1] bf
    by simp
qed

lemma recovery_error_logged:
  assumes "reset_try e (lockValue e w) w = (Inl x, w1)"
    and "recovery e (log_call ERROR (''Error resetting daily request counts: '' @ x) w1) = (Inl y, w2)"
  shows "(ERROR, ''Daily recovery attempt also failed: '' @ y)
           \<in> set (log_calls (snd (resetDailyRequests e w)))"
proof -
  have bf: "before_finally e w = log_call ERROR (''Daily recovery attempt also failed: '' @ y) w2"
    using before_finally_caught [OF assms(1)] catch_block_logs_recovery_error [OF assms(2)]
    by simp
  have "(ERROR, ''Daily recovery attempt also failed: '' @ y) \<in> set (log_calls (before_finally e w))"
    by (simp add: bf log_call_def)
  then show ?thesis
    by (rule extends_logD [OF extends_job_tail])
qed

lemma release_error_logged:
  assumes "redis_client e" and "failure e (RedisEval lockKey (lockValue e w)) = Some z"
  shows "(WARN, ''Error releasing daily lock: '' @ z)
           \<in> set (log_calls (snd (resetDailyRequests e w)))"
  using assms by (simp add: job_unfold finally_block_unfold await_def log_call_def)

text \<open>
  C8. The promise that resetDailyRequests returns always resolves. Whatever is thrown in
  the \<^verbatim>\<open>try\<close> block (a failing bulk update in particular) is logged as an error and
  the recovery with \<^verbatim>\<open>findAll\<close> is started; a throw in the recovery is logged as an
  error; a failing release of the lock is logged as a warning.
\<close>

theorem resetDailyRequests_never_rejects:
  "fst (resetDailyRequests e w) = Inr ()
   \<and> (\<forall>x. fst (reset_try e (lockValue e w) w) = Inl x \<longrightarrow>
         (ERROR, ''Error resetting daily request counts: '' @ x)
            \<in> set (log_calls (snd (resetDailyRequests e w)))
         \<and> UserFindAll \<in> set (issued (snd (resetDailyRequests e w))))
   \<and> (\<forall>wa x. acquire_lock e (lockValue e w) w = (Inr True, wa) \<and> failure e UserUpdate = Some x \<longrightarrow>
         fst (reset_try e (lockValue e w) w) = Inl x)
   \<and> (\<forall>x w1 y w2.
         reset_try e (lockValue e w) w = (Inl x, w1)
         \<and> recovery e (log_call ERROR (''Error resetting daily request counts: '' @ x) w1) = (Inl y, w2) \<longrightarrow>
         (ERROR, ''Daily recovery attempt also failed: '' @ y)
            \<in> set (log_calls (snd (resetDailyRequests e w))))
   \<and> (\<forall>z. redis_client e \<and> failure e (RedisEval lockKey (lockValue e w)) = Some z \<longrightarrow>
         (WARN, ''Error releasing daily lock: '' @ z)
            \<in> set (log_calls (snd (resetDailyRequests e w))))"
proof -
  have a: "fst (resetDailyRequests e w) = Inr ()" by (simp add: job_unfold)
  show ?thesis
    using a caught_error_logged [of e w] reset_try_update_fails [of e "lockValue e w" w]
      recovery_error_logged [of e w] release_error_logged [of e w]
    by blast
qed


lemmas job_defs =
  acquire_lock_def bulk_reset_def reset_try_def recovery_def record_completion_def
  verify_sample_def lockValue_def instance_name_def lockKey_def lockTTL_def await_def
  log_call_def show_count_def save_def redis_get_def
  set_nx_px_def set_plain_def expire_def release_script_def
  update_all_def count_users_def findOne_def findAll_def write_row_def
  show_nat.simps digit_char_def Let_def

theorem resetDailyRequests_never_rejects_witness:
  "fst (resetDailyRequests failing_env sample_world) = Inr ()
   \<and> fst (reset_try failing_env (lockValue failing_env sample_world) sample_world) = Inl ''db down''
   \<and> (ERROR, ''Error resetting daily request counts: db down'')
        \<in> set (log_calls (snd (resetDailyRequests failing_env sample_world)))
   \<and> UserFindAll \<in> set (issued (snd (resetDailyRequests failing_env sample_world)))
   \<and> (ERROR, ''Daily recovery attempt also failed: db still down'')
        \<in> set (log_calls (snd (resetDailyRequests failing_env sample_world)))
   \<and> (WARN, ''Error releasing daily lock: store gone'')
        \<in> set (log_calls (snd (resetDailyRequests failing_env sample_world)))"
proof -
  let ?e = failing_env and ?w = sample_world
  have acq: "fst (acquire_lock ?e (lockValue ?e ?w) ?w) = Inr True"
    by (simp add: failing_env_def sample_world_def job_defs)
  then have acq': "acquire_lock ?e (lockValue ?e ?w) ?w
      = (Inr True, snd (acquire_lock ?e (lockValue ?e ?w) ?w))"
    by (metis prod.collapse)
  have upd: "failure ?e UserUpdate = Some ''db down''"
    by (simp add: failing_env_def)
  have rt: "fst (reset_try ?e (lockValue ?e ?w) ?w) = Inl ''db down''"
    using resetDailyRequests_never_rejects [of ?e ?w] acq' upd by blast
  then have rt': "reset_try ?e (lockValue ?e ?w) ?w
      = (Inl ''db down'', snd (reset_try ?e (lockValue ?e ?w) ?w))"
    by (metis prod.collapse)
  have rec: "fst (recovery ?e (log_call ERROR (''Error resetting daily request counts: '' @ ''db down'')
      (snd (reset_try ?e (lockValue ?e ?w) ?w)))) = Inl ''db still down''"
    by (simp add: failing_env_def recovery_def await_def Let_def)
  then have rec': "recovery ?e (log_call ERROR (''Error resetting daily request counts: '' @ ''db down'')
      (snd (reset_try ?e (lockValue ?e ?w) ?w)))
     = (Inl ''db still down'', snd (recovery ?e (log_call ERROR (''Error resetting daily request counts: '' @ ''db down'')
      (snd (reset_try ?e (lockValue ?e ?w) ?w)))))"
    by (metis prod.collapse)
  have rel: "redis_client ?e \<and> failure ?e (RedisEval lockKey (lockValue ?e ?w)) = Some ''store gone''"
    by (simp add: failing_env_def)
  have c0: "fst (resetDailyRequests ?e ?w) = Inr ()"
    using resetDailyRequests_never_rejects [of ?e ?w] by blast
  have c1: "(ERROR, ''Error resetting daily request counts: '' @ ''db down'')
        \<in> set (log_calls (snd (resetDailyRequests ?e ?w)))
      \<and> UserFindAll \<in> set (issued (snd (resetDailyRequests ?e ?w)))"
    using resetDailyRequests_never_rejects [of ?e ?w] rt by blast
  have c2: "(ERROR, ''Daily recovery attempt also failed: '' @ ''db still down'')
        \<in> set (log_calls (snd (resetDailyRequests ?e ?w)))"
    using resetDailyRequests_never_rejects [of ?e ?w] rt' rec' by blast
  have c3: "(WARN, ''Error releasing daily lock: '' @ ''store gone'')
        \<in> set (log_calls (snd (resetDailyRequests ?e ?w)))"
    using resetDailyRequests_never_rejects [of ?e ?w] rel by blast
  show ?thesis
    using c0 rt c1 c2 c3 by simp
qed

lemma store_log_call [simp]: "redis_store (log_call l m w) = redis_store w"
  by (simp add: log_call_def)

lemma table_log_call [simp]: "user_table (log_call l m w) = user_table w"
  by (simp add: log_call_def)

lemma clock_log_call [simp]: "clock (log_call l m w) = clock w"
  by (simp add: log_call_def)

lemma redis_get_log_call [simp]: "redis_get (log_call l m w) k = redis_get w k"
  by (simp add: redis_get_def log_call_def split: option.splits)

lemma redis_get_SomeD: "redis_get w k = Some v \<Longrightarrow> \<exists>t. redis_store w k = Some (v, t)"
  by (auto simp add: redis_get_def split: option.splits if_splits)

lemma store_await:
  assumes "\<And>v. redis_store (snd (eff v)) k = redis_store v k"
  shows "redis_store (snd (await e c eff w)) k = redis_store w k"
proof (cases "failure e c")
  case None
  let ?w1 = "w\<lparr>issued := issued w @ [c], clock := clock w + latency e\<rparr>"
  obtain r w2 where eff: "eff ?w1 = (r, w2)" by (cases "eff ?w1")
  have "redis_store w2 k = redis_store w k"
    using assms [of ?w1] eff by simp
  then show ?thesis using None eff by (simp add: await_def)
next
  case (Some x)
  then show ?thesis by (simp add: await_def)
qed

lemma store_awaitD:
  "await e c eff w = (r, w1) \<Longrightarrow>
   (\<And>v. redis_store (snd (eff v)) k = redis_store v k) \<Longrightarrow>
   redis_store w1 k = redis_store w k"
  using store_await [of eff k e c w] by simp

lemma store_verify_sample [simp]: "redis_store (verify_sample s w) = redis_store w"
  by (simp add: verify_sample_def Let_def split: option.splits)

lemma store_record_completion:
  assumes "k \<noteq> ''last_daily_reset'' \<or> \<not> redis_client e"
  shows "redis_store (snd (record_completion e w)) k = redis_store w k"
proof (cases "redis_client e")
  case True
  let ?ts = "toISOString e (clock w)"
  obtain r w1 where a: "await e (RedisSet ''last_daily_reset'' ?ts) (set_plain ''last_daily_reset'' ?ts) w = (r, w1)"
    by (cases "await e (RedisSet ''last_daily_reset'' ?ts) (set_plain ''last_daily_reset'' ?ts) w")
  have k: "k \<noteq> ''last_daily_reset''" using assms True by simp
  have s1: "redis_store w1 k = redis_store w k"
    using a by (rule store_awaitD) (simp add: set_plain_def k)
  have s2: "redis_store (snd (await e (RedisExpire ''last_daily_reset'' (86400 * 2))
               (expire ''last_daily_reset'' (86400 * 2)) w1)) k = redis_store w1 k"
    by (rule store_await) (simp add: expire_def k split: option.splits)
  show ?thesis
    using True a s1 s2 by (cases r) (simp_all add: record_completion_def)
next
  case False
  then show ?thesis by (simp add: record_completion_def)
qed

lemma store_bulk_reset:
  assumes "k \<noteq> ''last_daily_reset'' \<or> \<not> redis_client e"
  shows "redis_store (snd (bulk_reset e w)) k = redis_store w k"
proof -
  let ?w0 = "log_call INFO (''Starting daily API request count reset for all users at ''
                    @ toISOString e (clock w)) w"
  obtain r1 w1 where a1: "await e UserUpdate (update_all (clock ?w0)) ?w0 = (r1, w1)"
    by (cases "await e UserUpdate (update_all (clock ?w0)) ?w0")
  have s1: "redis_store w1 k = redis_store w k"
    using store_awaitD [OF a1, of k] by (simp add: update_all_def)
  obtain r2 w2 where a2: "await e UserCount count_users w1 = (r2, w2)"
    by (cases "await e UserCount count_users w1")
  have s2: "redis_store w2 k = redis_store w k"
    using store_awaitD [OF a2, of k] s1 by (simp add: count_users_def)
  obtain r3 w3 where a3: "await e UserFindOne findOne
      (log_call INFO (''Successfully reset daily request count for ''
           @ show_nat (projr r1) @ '' of '' @ show_nat (projr r2)
           @ '' users (took '' @ show_nat (clock w2 - clock w) @ ''ms)'') w2) = (r3, w3)"
    by (cases "await e UserFindOne findOne
      (log_call INFO (''Successfully reset daily request count for ''
           @ show_nat (projr r1) @ '' of '' @ show_nat (projr r2)
           @ '' users (took '' @ show_nat (clock w2 - clock w) @ ''ms)'') w2)")
  have s3: "redis_store w3 k = redis_store w k"
    using store_awaitD [OF a3, of k] s2 by (simp add: findOne_def)
  show ?thesis
    using a1 a2 a3 s1 s2 s3 store_record_completion [OF assms]
    by (cases r1; cases r2; cases r3) (simp_all add: bulk_reset_def Let_def)
qed

lemma store_save: "redis_store (snd (save e u w)) k = redis_store w k"
  by (simp add: save_def store_await write_row_def)

lemma store_saveD: "save e u w = (r, w1) \<Longrightarrow> redis_store w1 k = redis_store w k"
  using store_save [of e u w k] by simp

lemma store_reset_each: "redis_store (snd (reset_each e us n w)) k = redis_store w k"
proof (induction us arbitrary: n w)
  case Nil
  then show ?case by simp
next
  case (Cons u us)
  have step: "redis_store (snd (reset_each e us j w1)) k = redis_store w k"
    if "save e u' w = (r, w1)" for u' r w1 j
    using store_saveD [OF that, of k] Cons.IH [of j w1] by simp
  show ?case
    using Cons.IH [of _ w]
    by (auto split: prod.splits sum.splits dest: store_saveD simp add: step)
qed

lemma store_recovery: "redis_store (snd (recovery e w)) k = redis_store w k"
proof -
  let ?w0 = "log_call INFO
      ''Attempting alternate daily reset method using findAll + individual updates'' w"
  obtain r w1 where aw: "await e UserFindAll findAll ?w0 = (r, w1)"
    by (cases "await e UserFindAll findAll ?w0")
  have b: "redis_store w1 k = redis_store w k"
    using store_awaitD [OF aw, of k] by (simp add: findAll_def)
  show ?thesis
  proof (cases r)
    case (Inl x)
    then show ?thesis using aw b by (simp add: recovery_def)
  next
    case (Inr users)
    obtain q w2 where re: "reset_each e users 0 w1 = (q, w2)"
      by (cases "reset_each e users 0 w1")
    have d: "redis_store w2 k = redis_store w k"
      using b store_reset_each [of e users 0 w1 k] re by simp
    show ?thesis
      using aw Inr re d by (cases q) (simp_all add: recovery_def)
  qed
qed

lemma store_catch_block: "redis_store (snd (catch_block e err w)) k = redis_store w k"
proof -
  let ?w0 = "log_call ERROR (''Error resetting daily request counts: '' @ err) w"
  obtain r w2 where re: "recovery e ?w0 = (r, w2)" by (cases "recovery e ?w0")
  have "redis_store w2 k = redis_store w k" using store_recovery [of e ?w0 k] re by simp
  then show ?thesis
    using re by (cases r) (simp_all add: catch_block_unfold)
qed

text \<open>What the acquisition does to the store.\<close>

lemma acquire_lock_cases:
  "acquire_lock e lv w =
     (if \<not> redis_client e then
        (Inr True, log_call WARN ''Redis not available - proceeding with reset (single instance mode)'' w)
      else (case failure e (RedisSetNX lockKey lv (lockTTL * 1000)) of
              Some x \<Rightarrow> (Inl x, w\<lparr>issued := issued w @ [RedisSetNX lockKey lv (lockTTL * 1000)],
                                    clock := clock w + latency e\<rparr>)
            | None \<Rightarrow>
                if lock_held e w
                then (Inr False,
                      log_call INFO ''Daily reset already running on another instance - skipping''
                        (w\<lparr>issued := issued w @ [RedisSetNX lockKey lv (lockTTL * 1000)],
                           clock := clock w + latency e\<rparr>))
                else (Inr True,
                      log_call INFO (''Acquired daily reset lock on instance '' @ instance_name e)
                        (w\<lparr>issued := issued w @ [RedisSetNX lockKey lv (lockTTL * 1000)],
                           clock := clock w + latency e,
                           redis_store := (redis_store w)(lockKey \<mapsto>
                              (lv, Some (clock w + latency e + lockTTL * 1000)))\<rparr>))))"
  by (simp add: acquire_lock_def await_def set_nx_px_def lock_held_def redis_get_def Let_def
      split: option.splits prod.splits)

lemma lockKey_not_completion_key: "lockKey \<noteq> ''last_daily_reset'' \<or> \<not> redis_client e"
  by (simp add: lockKey_def)

lemma store_reset_try_not_acquired:
  assumes "\<not> redis_client e \<or> failure e (RedisSetNX lockKey lv (lockTTL * 1000)) \<noteq> None \<or> lock_held e w"
  shows "redis_store (snd (reset_try e lv w)) lockKey = redis_store w lockKey"
  using assms store_bulk_reset [OF lockKey_not_completion_key]
  by (auto simp add: reset_try_def acquire_lock_cases split: option.splits)

lemma store_before_finally:
  "redis_store (before_finally e w) k = redis_store (snd (reset_try e (lockValue e w) w)) k"
proof -
  obtain r w1 where rt: "reset_try e (lockValue e w) w = (r, w1)"
    by (cases "reset_try e (lockValue e w) w")
  show ?thesis
    using rt store_catch_block [of e _ w1 k]
    by (cases r) (simp_all add: before_finally_def try_catch_def)
qed

lemma finally_block_store:
  "redis_store (snd (finally_block e lv w)) = redis_store w
   \<or> ((\<exists>t. redis_store w lockKey = Some (lv, t))
       \<and> redis_store (snd (finally_block e lv w)) = (redis_store w)(lockKey := None))"
  by (auto simp add: finally_block_unfold await_def release_script_def Let_def
      split: option.splits dest!: redis_get_SomeD)

lemma finally_block_issued:
  "redis_client e \<Longrightarrow> issued (snd (finally_block e lv w)) = issued w @ [RedisEval lockKey lv]"
  by (simp add: finally_block_unfold await_def release_script_def log_call_def Let_def
      split: option.splits)

lemma finally_block_released:
  "redis_client e \<Longrightarrow> failure e (RedisEval lockKey lv) = None \<Longrightarrow>
   redis_get (snd (finally_block e lv w)) lockKey \<noteq> Some lv"
  by (simp add: finally_block_unfold await_def release_script_def Let_def)
     (simp add: redis_get_def)

text \<open>
  What the finally block does on every path: with a store configured it issues the
  release script as the job's last command; the script changes nothing but the lock key,
  and the lock key only by deleting it when it reads the value this run computed. A lock
  held with a different value is left as it is.
\<close>

lemma release_is_compare_and_delete:
  "(redis_client e \<longrightarrow>
      issued (snd (resetDailyRequests e w))
        = issued (before_finally e w) @ [RedisEval lockKey (lockValue e w)])
   \<and> (\<forall>k. k \<noteq> lockKey \<longrightarrow>
         redis_store (snd (resetDailyRequests e w)) k = redis_store (before_finally e w) k)
   \<and> (redis_store (snd (resetDailyRequests e w)) lockKey \<noteq> redis_store (before_finally e w) lockKey \<longrightarrow>
         redis_store (snd (resetDailyRequests e w)) lockKey = None
         \<and> (\<exists>t. redis_store (before_finally e w) lockKey = Some (lockValue e w, t)))
   \<and> (\<forall>v t. redis_store w lockKey = Some (v, t) \<and> v \<noteq> lockValue e w \<and> lock_held e w \<longrightarrow>
         redis_store (snd (resetDailyRequests e w)) lockKey = Some (v, t))
   \<and> (redis_client e \<and> failure e (RedisEval lockKey (lockValue e w)) = None \<longrightarrow>
         redis_get (snd (resetDailyRequests e w)) lockKey \<noteq> Some (lockValue e w))"
proof -
  let ?lv = "lockValue e w" and ?B = "before_finally e w"
  have fin: "snd (resetDailyRequests e w) = snd (finally_block e ?lv ?B)"
    by (simp add: job_unfold)
  have a: "redis_client e \<longrightarrow>
      issued (snd (resetDailyRequests e w)) = issued ?B @ [RedisEval lockKey ?lv]"
    by (simp add: fin finally_block_issued)
  have b: "\<forall>k. k \<noteq> lockKey \<longrightarrow>
         redis_store (snd (resetDailyRequests e w)) k = redis_store ?B k"
    using finally_block_store [of e ?lv ?B] by (auto simp add: fin)
  have c: "redis_store (snd (resetDailyRequests e w)) lockKey \<noteq> redis_store ?B lockKey \<longrightarrow>
         redis_store (snd (resetDailyRequests e w)) lockKey = None
         \<and> (\<exists>t. redis_store ?B lockKey = Some (?lv, t))"
    using finally_block_store [of e ?lv ?B] by (auto simp add: fin)
  have d: "redis_store (snd (resetDailyRequests e w)) lockKey = Some (v, t)"
    if "redis_store w lockKey = Some (v, t)" and "v \<noteq> ?lv" and "lock_held e w" for v t
  proof -
    have "redis_store ?B lockKey = Some (v, t)"
      using that store_before_finally [of e w lockKey]
        store_reset_try_not_acquired [of e ?lv w] by simp
    then show ?thesis
      using finally_block_store [of e ?lv ?B] that(2) by (auto simp add: fin)
  qed
  have f: "redis_client e \<and> failure e (RedisEval lockKey ?lv) = None \<longrightarrow>
         redis_get (snd (resetDailyRequests e w)) lockKey \<noteq> Some ?lv"
    by (simp add: fin finally_block_released)
  show ?thesis
    using a b c d f by blast
qed

lemma await_InrD:
  "await e c eff w = (Inr r, w1) \<Longrightarrow>
   failure e c = None
   \<and> eff (w\<lparr>issued := issued w @ [c], clock := clock w + latency e\<rparr>) = (r, w1)"
  by (auto simp add: await_def Let_def split: option.splits prod.splits)

lemma await_ok:
  "failure e c = None \<Longrightarrow>
   await e c eff w =
     (Inr (fst (eff (w\<lparr>issued := issued w @ [c], clock := clock w + latency e\<rparr>))),
      snd (eff (w\<lparr>issued := issued w @ [c], clock := clock w + latency e\<rparr>)))"
  by (simp add: await_def Let_def split: prod.splits)

lemma table_verify_sample [simp]: "user_table (verify_sample s w) = user_table w"
  by (simp add: verify_sample_def Let_def split: option.splits)

lemma issued_log_call [simp]: "issued (log_call l m w) = issued w"
  by (simp add: log_call_def)

lemma issued_verify_sample [simp]: "issued (verify_sample s w) = issued w"
  by (simp add: verify_sample_def Let_def split: option.splits)

lemma clock_verify_sample [simp]: "clock (verify_sample s w) = clock w"
  by (simp add: verify_sample_def Let_def split: option.splits)

lemma record_completion_done:
  assumes "record_completion e w = (Inr (), wb)"
  shows "user_table wb = user_table w"
    and "issued wb = issued w @
           (if redis_client e
            then [RedisSet ''last_daily_reset'' (toISOString e (clock w)),
                  RedisExpire ''last_daily_reset'' (86400 * 2)]
            else [])"
    and "redis_client e \<longrightarrow>
           redis_store wb ''last_daily_reset''
             = Some (toISOString e (clock w), Some (clock w + 2 * latency e + 86400 * 2 * 1000))"
    and "clock wb = clock w + (if redis_client e then 2 * latency e else 0)"
  using assms
  by (auto simp add: record_completion_def await_def set_plain_def expire_def redis_get_def Let_def
      split: if_splits option.splits prod.splits sum.splits)

lemma bulk_reset_done:
  assumes "bulk_reset e w = (Inr (), wb)"
  shows "user_table wb = map (zeroed (clock w)) (user_table w)"
    and "issued wb = issued w @ [UserUpdate, UserCount, UserFindOne] @
           (if redis_client e
            then [RedisSet ''last_daily_reset'' (toISOString e (clock w + 3 * latency e)),
                  RedisExpire ''last_daily_reset'' (86400 * 2)]
            else [])"
    and "redis_client e \<longrightarrow>
           redis_store wb ''last_daily_reset''
             = Some (toISOString e (clock w + 3 * latency e),
                     Some (clock w + 5 * latency e + 86400 * 2 * 1000))"
    and "clock wb = clock w + (if redis_client e then 5 * latency e else 3 * latency e)"
proof -
  let ?w0 = "log_call INFO (''Starting daily API request count reset for all users at ''
                    @ toISOString e (clock w)) w"
  obtain r1 w1 where a1: "await e UserUpdate (update_all (clock ?w0)) ?w0 = (r1, w1)"
    by (cases "await e UserUpdate (update_all (clock ?w0)) ?w0")
  obtain r2 w2 where a2: "await e UserCount count_users w1 = (r2, w2)"
    by (cases "await e UserCount count_users w1")
  define w3 where "w3 = log_call INFO (''Successfully reset daily request count for ''
           @ show_nat (projr r1) @ '' of '' @ show_nat (projr r2)
           @ '' users (took '' @ show_nat (clock w2 - clock w) @ ''ms)'') w2"
  obtain r3 w4 where a3: "await e UserFindOne findOne w3 = (r3, w4)"
    by (cases "await e UserFindOne findOne w3")
  have unf: "bulk_reset e w =
      (case r1 of Inl x \<Rightarrow> (Inl x, w1)
       | Inr c1 \<Rightarrow> (case r2 of Inl x \<Rightarrow> (Inl x, w2)
          | Inr c2 \<Rightarrow> (case r3 of Inl x \<Rightarrow> (Inl x, w4)
             | Inr s \<Rightarrow> record_completion e (verify_sample s w4))))"
    using a1 a2 a3 by (cases r1; cases r2; cases r3) (simp_all add: bulk_reset_def Let_def w3_def)
  obtain c1 c2 s where r: "r1 = Inr c1" "r2 = Inr c2" "r3 = Inr s"
    and rc: "record_completion e (verify_sample s w4) = (Inr (), wb)"
    using assms unf by (cases r1; cases r2; cases r3) simp_all
  have e1: "update_all (clock w) (?w0\<lparr>issued := issued ?w0 @ [UserUpdate], clock := clock ?w0 + latency e\<rparr>) = (c1, w1)"
    using await_InrD [of e UserUpdate "update_all (clock ?w0)" ?w0 c1 w1] a1 r by simp
  have e2: "count_users (w1\<lparr>issued := issued w1 @ [UserCount], clock := clock w1 + latency e\<rparr>) = (c2, w2)"
    using await_InrD [of e UserCount count_users w1 c2 w2] a2 r by simp
  have e3: "findOne (w3\<lparr>issued := issued w3 @ [UserFindOne], clock := clock w3 + latency e\<rparr>) = (s, w4)"
    using await_InrD [of e UserFindOne findOne w3 s w4] a3 r by simp
  have f1: "user_table w1 = map (zeroed (clock w)) (user_table w)"
    "issued w1 = issued w @ [UserUpdate]" "clock w1 = clock w + latency e"
    using e1 by (auto simp add: update_all_def zeroed_def)
  have f2: "user_table w2 = user_table w1" "issued w2 = issued w1 @ [UserCount]"
    "clock w2 = clock w1 + latency e"
    using e2 by (auto simp add: count_users_def)
  have f3: "user_table w4 = user_table w2" "issued w4 = issued w2 @ [UserFindOne]"
    "clock w4 = clock w2 + latency e"
    using e3 by (auto simp add: findOne_def w3_def)
  have c4: "clock (verify_sample s w4) = clock w + 3 * latency e"
    using f1 f2 f3 by simp
  have i4: "issued (verify_sample s w4) = issued w @ [UserUpdate, UserCount, UserFindOne]"
    using f1 f2 f3 by simp
  show "user_table wb = map (zeroed (clock w)) (user_table w)"
    using record_completion_done(1) [OF rc] f1 f2 f3 by simp
  show "issued wb = issued w @ [UserUpdate, UserCount, UserFindOne] @
           (if redis_client e
            then [RedisSet ''last_daily_reset'' (toISOString e (clock w + 3 * latency e)),
                  RedisExpire ''last_daily_reset'' (86400 * 2)]
            else [])"
    using record_completion_done(2) [OF rc] by (simp only: c4 i4) simp
  show "redis_client e \<longrightarrow>
           redis_store wb ''last_daily_reset''
             = Some (toISOString e (clock w + 3 * latency e),
                     Some (clock w + 5 * latency e + 86400 * 2 * 1000))"
    using record_completion_done(3) [OF rc] by (simp only: c4) simp
  show "clock wb = clock w + (if redis_client e then 5 * latency e else 3 * latency e)"
    using record_completion_done(4) [OF rc] by (simp only: c4) simp
qed

lemma bulk_reset_ok:
  assumes "\<And>c. failure e c = None"
  shows "fst (bulk_reset e w) = Inr ()"
  by (simp add: bulk_reset_def record_completion_def await_def assms Let_def
      split: prod.splits)





lemma table_finally_block [simp]: "user_table (snd (finally_block e lv w)) = user_table w"
  by (simp add: finally_block_unfold await_def release_script_def Let_def split: option.splits)

lemma finally_block_local:
  "\<not> redis_client e \<Longrightarrow> finally_block e lv w = (Inr (), w)"
  by (simp add: finally_block_unfold)

lemma finally_block_deletes:
  assumes "redis_client e" and "failure e (RedisEval lockKey lv) = None"
    and "redis_store w lockKey = Some (lv, Some t)" and "clock w + latency e < t"
  shows "redis_store (snd (finally_block e lv w)) = (redis_store w)(lockKey := None)"
    and "clock (snd (finally_block e lv w)) = clock w + latency e"
  using assms
  by (simp_all add: finally_block_unfold await_def release_script_def redis_get_def Let_def)

lemma released_lock_not_held:
  assumes "redis_client e" and "failure e (RedisEval lockKey lv) = None"
    and "redis_store w lockKey = Some (lv, t)"
  shows "\<not> lock_held e' (snd (finally_block e lv w))"
  using assms
  by (auto simp add: finally_block_unfold await_def release_script_def redis_get_def
      lock_held_def Let_def split: option.splits if_splits)

lemma table_acquire_lock [simp]: "user_table (snd (acquire_lock e lv w)) = user_table w"
  by (simp add: acquire_lock_cases log_call_def split: option.splits)

lemma issued_finally_block:
  "issued (snd (finally_block e lv w))
     = issued w @ (if redis_client e then [RedisEval lockKey lv] else [])"
  by (simp add: finally_block_issued finally_block_local)

lemma store_finally_block_other:
  "k \<noteq> lockKey \<Longrightarrow> redis_store (snd (finally_block e lv w)) k = redis_store w k"
  using finally_block_store [of e lv w] by auto

lemma completed_run:
  assumes acq: "acquire_lock e (lockValue e w) w = (Inr True, wa)"
    and br: "bulk_reset e wa = (Inr (), wb)"
  shows "fst (resetDailyRequests e w) = Inr ()"
    and "user_table (snd (resetDailyRequests e w)) = map (zeroed (clock wa)) (user_table w)"
    and "issued (snd (resetDailyRequests e w)) =
           issued wa @ [UserUpdate, UserCount, UserFindOne] @
           (if redis_client e
            then [RedisSet ''last_daily_reset'' (toISOString e (clock wa + 3 * latency e)),
                  RedisExpire ''last_daily_reset'' (86400 * 2),
                  RedisEval lockKey (lockValue e w)]
            else [])"
    and "redis_client e \<longrightarrow>
           redis_store (snd (resetDailyRequests e w)) ''last_daily_reset''
             = Some (toISOString e (clock wa + 3 * latency e),
                     Some (clock wa + 5 * latency e + 86400 * 2 * 1000))"
    and "before_finally e w = wb"
proof -
  have rt: "reset_try e (lockValue e w) w = (Inr (), wb)"
    using acq br by (simp add: reset_try_def)
  show bf: "before_finally e w = wb"
    using rt by (rule before_finally_completed)
  have fin: "snd (resetDailyRequests e w) = snd (finally_block e (lockValue e w) wb)"
    by (simp add: job_unfold bf)
  have ta: "user_table wa = user_table w"
    using table_acquire_lock [of e "lockValue e w" w] acq by simp
  show "fst (resetDailyRequests e w) = Inr ()"
    by (simp add: job_unfold)
  show "user_table (snd (resetDailyRequests e w)) = map (zeroed (clock wa)) (user_table w)"
    using bulk_reset_done(1) [OF br] by (simp add: fin ta)
  show "issued (snd (resetDailyRequests e w)) =
           issued wa @ [UserUpdate, UserCount, UserFindOne] @
           (if redis_client e
            then [RedisSet ''last_daily_reset'' (toISOString e (clock wa + 3 * latency e)),
                  RedisExpire ''last_daily_reset'' (86400 * 2),
                  RedisEval lockKey (lockValue e w)]
            else [])"
    using bulk_reset_done(2) [OF br] by (simp add: fin issued_finally_block)
  show "redis_client e \<longrightarrow>
           redis_store (snd (resetDailyRequests e w)) ''last_daily_reset''
             = Some (toISOString e (clock wa + 3 * latency e),
                     Some (clock wa + 5 * latency e + 86400 * 2 * 1000))"
    using bulk_reset_done(3) [OF br]
    by (simp add: fin store_finally_block_other lockKey_def)
qed

lemma requestsToday_zeroed [simp]: "requestsToday (zeroed d u) = 0"
  by (simp add: zeroed_def)

lemma uid_zeroed [simp]: "uid (zeroed d u) = uid u"
  by (simp add: zeroed_def)

text \<open>
  C5 (as amended). On a run that goes past the lock (acquired, or no store configured)
  and whose try block completes: every row has \<^verbatim>\<open>requestsToday = 0\<close>, the rows are the
  same users, the only write to the users table is the one bulk update, and after it,
  when a store is configured, the completion time is stored under
  \<^verbatim>\<open>last_daily_reset\<close> with a time to live of two days. Without a store nothing is
  recorded.
\<close>

theorem successful_run_resets_all:
  "acquire_lock e (lockValue e w) w = (Inr True, wa) \<and> bulk_reset e wa = (Inr (), wb) \<longrightarrow>
     fst (resetDailyRequests e w) = Inr ()
     \<and> user_table (snd (resetDailyRequests e w)) = map (zeroed (clock wa)) (user_table w)
     \<and> (\<forall>u \<in> set (user_table (snd (resetDailyRequests e w))). requestsToday u = 0)
     \<and> map uid (user_table (snd (resetDailyRequests e w))) = map uid (user_table w)
     \<and> issued (snd (resetDailyRequests e w)) =
           issued wa @ [UserUpdate, UserCount, UserFindOne] @
           (if redis_client e
            then [RedisSet ''last_daily_reset'' (toISOString e (clock wa + 3 * latency e)),
                  RedisExpire ''last_daily_reset'' (86400 * 2),
                  RedisEval lockKey (lockValue e w)]
            else [])
     \<and> (redis_client e \<longrightarrow>
           redis_store (snd (resetDailyRequests e w)) ''last_daily_reset''
             = Some (toISOString e (clock wa + 3 * latency e),
                     Some (clock wa + 5 * latency e + 86400 * 2 * 1000)))
     \<and> (\<not> redis_client e \<longrightarrow>
           redis_store (snd (resetDailyRequests e w)) = redis_store w)"
proof (intro impI, elim conjE)
  assume acq: "acquire_lock e (lockValue e w) w = (Inr True, wa)"
    and br: "bulk_reset e wa = (Inr (), wb)"
  note cr = completed_run [OF acq br]
  have z: "\<forall>u \<in> set (user_table (snd (resetDailyRequests e w))). requestsToday u = 0"
    by (simp add: cr(2))
  have u: "map uid (user_table (snd (resetDailyRequests e w))) = map uid (user_table w)"
    by (simp add: cr(2))
  have l: "redis_store (snd (resetDailyRequests e w)) = redis_store w" if nr: "\<not> redis_client e"
  proof -
    have "wa = log_call WARN ''Redis not available - proceeding with reset (single instance mode)'' w"
      using acq nr by (simp add: acquire_lock_cases)
    then have "redis_store wa = redis_store w" by simp
    moreover have "redis_store wb k = redis_store wa k" for k
      using store_bulk_reset [of k e wa] nr br by simp
    ultimately show ?thesis
      using nr by (simp add: job_unfold cr(5) finally_block_local fun_eq_iff)
  qed
  show "fst (resetDailyRequests e w) = Inr ()
     \<and> user_table (snd (resetDailyRequests e w)) = map (zeroed (clock wa)) (user_table w)
     \<and> (\<forall>u \<in> set (user_table (snd (resetDailyRequests e w))). requestsToday u = 0)
     \<and> map uid (user_table (snd (resetDailyRequests e w))) = map uid (user_table w)
     \<and> issued (snd (resetDailyRequests e w)) =
           issued wa @ [UserUpdate, UserCount, UserFindOne] @
           (if redis_client e
            then [RedisSet ''last_daily_reset'' (toISOString e (clock wa + 3 * latency e)),
                  RedisExpire ''last_daily_reset'' (86400 * 2),
                  RedisEval lockKey (lockValue e w)]
            else [])
     \<and> (redis_client e \<longrightarrow>
           redis_store (snd (resetDailyRequests e w)) ''last_daily_reset''
             = Some (toISOString e (clock wa + 3 * latency e),
                     Some (clock wa + 5 * latency e + 86400 * 2 * 1000)))
     \<and> (\<not> redis_client e \<longrightarrow>
           redis_store (snd (resetDailyRequests e w)) = redis_store w)"
    using cr(1) cr(2) z u cr(3) cr(4) l by blast
qed

lemma acquired_run:
  assumes "redis_client e" and "\<And>c. failure e c = None" and "\<not> lock_held e w"
  shows "\<exists>wa wb. acquire_lock e lv w = (Inr True, wa) \<and> bulk_reset e wa = (Inr (), wb)
           \<and> issued wa = issued w @ [RedisSetNX lockKey lv (lockTTL * 1000)]
           \<and> clock wa = clock w + latency e
           \<and> redis_store wa
               = (redis_store w)(lockKey \<mapsto> (lv, Some (clock w + latency e + lockTTL * 1000)))"
proof -
  define wa where "wa = snd (acquire_lock e lv w)"
  have a: "acquire_lock e lv w = (Inr True, wa)"
    using assms by (simp add: wa_def acquire_lock_cases)
  have f: "issued wa = issued w @ [RedisSetNX lockKey lv (lockTTL * 1000)]"
    "clock wa = clock w + latency e"
    "redis_store wa
       = (redis_store w)(lockKey \<mapsto> (lv, Some (clock w + latency e + lockTTL * 1000)))"
    using assms by (simp_all add: wa_def acquire_lock_cases log_call_def)
  have "bulk_reset e wa = (Inr (), snd (bulk_reset e wa))"
    using bulk_reset_ok [of e wa] assms(2) by (metis prod.collapse)
  then show ?thesis using a f by blast
qed

lemma local_run:
  assumes "\<not> redis_client e" and "\<And>c. failure e c = None"
  shows "\<exists>wa wb. acquire_lock e lv w = (Inr True, wa) \<and> bulk_reset e wa = (Inr (), wb)
           \<and> issued wa = issued w \<and> clock wa = clock w"
proof -
  define wa where "wa = snd (acquire_lock e lv w)"
  have a: "acquire_lock e lv w = (Inr True, wa)"
    using assms by (simp add: wa_def acquire_lock_cases)
  have f: "issued wa = issued w" "clock wa = clock w"
    using assms by (simp_all add: wa_def acquire_lock_cases)
  have "bulk_reset e wa = (Inr (), snd (bulk_reset e wa))"
    using bulk_reset_ok [of e wa] assms(2) by (metis prod.collapse)
  then show ?thesis using a f by blast
qed


lemma local_job:
  assumes nr: "\<not> redis_client e" and nf: "\<And>c. failure e c = None"
  shows "fst (resetDailyRequests e w) = Inr ()"
    and "user_table (snd (resetDailyRequests e w)) = map (zeroed (clock w)) (user_table w)"
    and "issued (snd (resetDailyRequests e w)) = issued w @ [UserUpdate, UserCount, UserFindOne]"
    and "redis_store (snd (resetDailyRequests e w)) = redis_store w"
proof -
  let ?lv = "lockValue e w"
  obtain wa wb where acq: "acquire_lock e ?lv w = (Inr True, wa)"
    and br: "bulk_reset e wa = (Inr (), wb)"
    and ia: "issued wa = issued w" and ca: "clock wa = clock w"
    using local_run [OF nr nf, of ?lv w] by blast
  note cr = completed_run [OF acq br]
  show "fst (resetDailyRequests e w) = Inr ()" by (rule cr(1))
  show "user_table (snd (resetDailyRequests e w)) = map (zeroed (clock w)) (user_table w)"
    using cr(2) by (simp add: ca)
  show "issued (snd (resetDailyRequests e w)) = issued w @ [UserUpdate, UserCount, UserFindOne]"
    using cr(3) nr by (simp add: ia)
  have "wa = log_call WARN ''Redis not available - proceeding with reset (single instance mode)'' w"
    using acq nr by (simp add: acquire_lock_cases)
  then have "redis_store wa = redis_store w" by simp
  moreover have "redis_store wb k = redis_store wa k" for k
    using store_bulk_reset [of k e wa] nr br by simp
  ultimately show "redis_store (snd (resetDailyRequests e w)) = redis_store w"
    using nr by (simp add: job_unfold cr(5) finally_block_local fun_eq_iff)
qed






lemma job_skips_when_held:
  assumes "redis_client e"
    and "failure e (RedisSetNX lockKey (lockValue e w) (lockTTL * 1000)) = None"
    and "lock_held e w"
  shows "user_table (snd (resetDailyRequests e w)) = user_table w"
    and "issued (snd (resetDailyRequests e w))
           = issued w @ [RedisSetNX lockKey (lockValue e w) (lockTTL * 1000),
                         RedisEval lockKey (lockValue e w)]"
    and "(INFO, ''Daily reset already running on another instance - skipping'')
           \<in> set (log_calls (snd (resetDailyRequests e w)))"
proof -
  let ?lv = "lockValue e w"
  define w1 where "w1 = log_call INFO ''Daily reset already running on another instance - skipping''
                        (w\<lparr>issued := issued w @ [RedisSetNX lockKey ?lv (lockTTL * 1000)],
                           clock := clock w + latency e\<rparr>)"
  have rt: "reset_try e ?lv w = (Inr (), w1)"
    using assms by (simp add: reset_try_def acquire_lock_cases w1_def)
  have bf: "before_finally e w = w1"
    using rt by (rule before_finally_completed)
  have fin: "snd (resetDailyRequests e w) = snd (finally_block e ?lv w1)"
    by (simp add: job_unfold bf)
  show "user_table (snd (resetDailyRequests e w)) = user_table w"
    by (simp add: fin w1_def)
  show "issued (snd (resetDailyRequests e w))
           = issued w @ [RedisSetNX lockKey ?lv (lockTTL * 1000), RedisEval lockKey ?lv]"
    using assms(1) by (simp add: fin issued_finally_block w1_def)
  have "(INFO, ''Daily reset already running on another instance - skipping'')
           \<in> set (log_calls w1)"
    by (simp add: w1_def log_call_def)
  then show "(INFO, ''Daily reset already running on another instance - skipping'')
           \<in> set (log_calls (snd (resetDailyRequests e w)))"
    using extends_logD [OF extends_job_tail [of e w]] bf by simp
qed




text \<open>Facts about the concrete environments and worlds.\<close>

lemma plain_env_simps [simp]:
  "redis_client plain_env" "failure plain_env c = None" "latency plain_env = 1"
  "toISOString plain_env = show_nat" "instance_name plain_env = ''local''"
  by (simp_all add: plain_env_def instance_name_def)

lemma local_env_simps [simp]:
  "\<not> redis_client local_env" "failure local_env c = None" "latency local_env = 1"
  by (simp_all add: local_env_def plain_env_def)

lemma instance_a_simps [simp]:
  "redis_client instance_a" "failure instance_a c = None" "latency instance_a = 1"
  "toISOString instance_a = show_nat" "instance_name instance_a = ''a''"
  by (simp_all add: instance_a_def plain_env_def instance_name_def)

lemma instance_b_simps [simp]:
  "redis_client instance_b" "failure instance_b c = None" "latency instance_b = 1"
  "toISOString instance_b = show_nat" "instance_name instance_b = ''b''"
  by (simp_all add: instance_b_def plain_env_def instance_name_def)

lemma sample_world_simps [simp]:
  "redis_store sample_world = Map.empty" "user_table sample_world = [sample_user]"
  "clock sample_world = 100" "issued sample_world = []" "log_calls sample_world = []"
  by (simp_all add: sample_world_def)

lemma held_world_simps [simp]:
  "redis_store held_world = [lockKey \<mapsto> (''other_5'', Some 5000)]"
  "user_table held_world = [sample_user]"
  "clock held_world = 100" "issued held_world = []"
  by (simp_all add: held_world_def)

lemma show_nat_samples [simp]:
  "show_nat 100 = ''100''" "show_nat 104 = ''104''" "show_nat 107 = ''107''"
  "show_nat 111 = ''111''"
  by (simp_all add: show_nat.simps digit_char_def)

lemma lock_free_sample [simp]: "\<not> lock_held e sample_world"
  by (simp add: lock_held_def redis_get_def)

lemma lock_held_sample [simp]: "lock_held plain_env held_world"
  by (simp add: lock_held_def redis_get_def)

lemma store_error_env_simps [simp]:
  "redis_client store_error_env" "latency store_error_env = 1"
  "failure store_error_env (RedisSetNX k v ms) = Some ''ECONNRESET''"
  "failure store_error_env UserFindAll = None"
  "failure store_error_env (UserSave n) = None"
  "failure store_error_env (RedisEval k v) = None"
  "instance_name store_error_env = ''local''"
  by (simp_all add: store_error_env_def plain_env_def instance_name_def)



theorem successful_run_resets_all_witness:
  "acquire_lock plain_env ''local_100'' sample_world
     = (Inr True, snd (acquire_lock plain_env ''local_100'' sample_world))
   \<and> bulk_reset plain_env (snd (acquire_lock plain_env ''local_100'' sample_world))
     = (Inr (), snd (bulk_reset plain_env
          (snd (acquire_lock plain_env ''local_100'' sample_world))))
   \<and> user_table (snd (resetDailyRequests plain_env sample_world)) = [zeroed 101 sample_user]
   \<and> issued (snd (resetDailyRequests plain_env sample_world))
     = [RedisSetNX lockKey ''local_100'' 300000, UserUpdate, UserCount, UserFindOne,
        RedisSet ''last_daily_reset'' ''104'', RedisExpire ''last_daily_reset'' 172800,
        RedisEval lockKey ''local_100'']
   \<and> redis_store (snd (resetDailyRequests plain_env sample_world)) ''last_daily_reset''
     = Some (''104'', Some 172800106)"
proof -
  let ?wa = "snd (acquire_lock plain_env ''local_100'' sample_world)"
  let ?wb = "snd (bulk_reset plain_env ?wa)"
  have lv: "lockValue plain_env sample_world = ''local_100''" by (simp add: lockValue_def)
  have ttl: "lockTTL * 1000 = 300000" by (simp add: lockTTL_def)
  obtain wa wb where acq: "acquire_lock plain_env ''local_100'' sample_world = (Inr True, wa)"
    and br: "bulk_reset plain_env wa = (Inr (), wb)"
    and ia: "issued wa = issued sample_world @ [RedisSetNX lockKey ''local_100'' (lockTTL * 1000)]"
    and ca: "clock wa = clock sample_world + latency plain_env"
    using acquired_run [of plain_env sample_world "''local_100''"] by auto
  have wa: "wa = ?wa" and wb: "wb = ?wb" using acq br by simp_all
  have h: "acquire_lock plain_env ''local_100'' sample_world = (Inr True, ?wa)
      \<and> bulk_reset plain_env ?wa = (Inr (), ?wb)"
    using acq br wa wb by simp
  have ia': "issued ?wa = [RedisSetNX lockKey ''local_100'' 300000]" and ca': "clock ?wa = 101"
    using ia ca wa by (simp_all add: ttl)
  have c: "user_table (snd (resetDailyRequests plain_env sample_world))
        = map (zeroed (clock ?wa)) (user_table sample_world)
     \<and> issued (snd (resetDailyRequests plain_env sample_world)) =
           issued ?wa @ [UserUpdate, UserCount, UserFindOne] @
           (if redis_client plain_env
            then [RedisSet ''last_daily_reset'' (toISOString plain_env (clock ?wa + 3 * latency plain_env)),
                  RedisExpire ''last_daily_reset'' (86400 * 2),
                  RedisEval lockKey ''local_100'']
            else [])
     \<and> (redis_client plain_env \<longrightarrow>
           redis_store (snd (resetDailyRequests plain_env sample_world)) ''last_daily_reset''
             = Some (toISOString plain_env (clock ?wa + 3 * latency plain_env),
                     Some (clock ?wa + 5 * latency plain_env + 86400 * 2 * 1000)))"
    using successful_run_resets_all [of plain_env sample_world ?wa ?wb] h by (simp only: lv) blast
  show ?thesis
    using h c by (simp add: ia' ca')
qed

text \<open>
  C5 as stated fails: with no store configured the run succeeds, the bulk update is done,
  and no completion timestamp is recorded anywhere.
\<close>

theorem no_store_no_timestamp_counterexample:
  "\<not> redis_client local_env
   \<and> fst (resetDailyRequests local_env sample_world) = Inr ()
   \<and> user_table (snd (resetDailyRequests local_env sample_world)) = [zeroed 100 sample_user]
   \<and> issued (snd (resetDailyRequests local_env sample_world))
       = [UserUpdate, UserCount, UserFindOne]
   \<and> redis_store (snd (resetDailyRequests local_env sample_world)) ''last_daily_reset'' = None"
  using local_job [of local_env sample_world] by simp

lemma job_skip_state:
  assumes "redis_client e"
    and "failure e (RedisSetNX lockKey (lockValue e w) (lockTTL * 1000)) = None"
    and "lock_held e w"
  shows "before_finally e w
           = log_call INFO ''Daily reset already running on another instance - skipping''
               (w\<lparr>issued := issued w @ [RedisSetNX lockKey (lockValue e w) (lockTTL * 1000)],
                  clock := clock w + latency e\<rparr>)"
proof -
  have "reset_try e (lockValue e w) w
      = (Inr (), log_call INFO ''Daily reset already running on another instance - skipping''
               (w\<lparr>issued := issued w @ [RedisSetNX lockKey (lockValue e w) (lockTTL * 1000)],
                  clock := clock w + latency e\<rparr>))"
    using assms by (simp add: reset_try_def acquire_lock_cases)
  then show ?thesis by (rule before_finally_completed)
qed

lemma skipping_run_deletes_equal_value:
  assumes rc: "redis_client e" and nf: "\<And>c. failure e c = None"
    and held: "lock_held e w"
    and st: "redis_store w lockKey = Some (lockValue e w, Some t)"
    and live: "clock w + 2 * latency e < t"
  shows "redis_store (snd (resetDailyRequests e w)) = (redis_store w)(lockKey := None)"
proof -
  let ?lv = "lockValue e w"
  let ?w1 = "log_call INFO ''Daily reset already running on another instance - skipping''
               (w\<lparr>issued := issued w @ [RedisSetNX lockKey ?lv (lockTTL * 1000)],
                  clock := clock w + latency e\<rparr>)"
  have bf: "before_finally e w = ?w1"
    using rc nf held by (simp add: job_skip_state)
  have s1: "redis_store ?w1 lockKey = Some (?lv, Some t)" using st by simp
  have l1: "clock ?w1 + latency e < t" using live by simp
  have "redis_store (snd (finally_block e ?lv ?w1)) = (redis_store ?w1)(lockKey := None)"
    using finally_block_deletes(1) [OF rc nf s1 l1] .
  then show ?thesis by (simp add: job_unfold bf)
qed

lemma collision_world_simps [simp]:
  "redis_store collision_world = [lockKey \<mapsto> (''local_100'', Some 300100)]"
  "user_table collision_world = [sample_user]"
  "clock collision_world = 100" "issued collision_world = []"
  by (simp_all add: collision_world_def)

text \<open>
  C6 fails on this run, against the comment of the finally block (\<^emph>\<open>only release if we
  still own the lock\<close>). The lock value is the instance name and the time of the start in
  milliseconds, which is not unique: two instances without \<^verbatim>\<open>FLY_ALLOC_ID\<close> that
  start in the same millisecond both compute \<^verbatim>\<open>local_100\<close>. The first holds the lock.
  The second finds it held, logs that it skips and returns without touching the users
  table; the early return still passes through the finally block, the release script finds
  the stored value equal to its own, and the lock of the first instance is deleted.
\<close>

theorem equal_lock_value_deletes_foreign_lock:
  "instance_name plain_env = ''local''
   \<and> lockValue plain_env collision_world = ''local_100''
   \<and> redis_store collision_world lockKey = Some (''local_100'', Some 300100)
   \<and> lock_held plain_env collision_world
   \<and> issued (snd (resetDailyRequests plain_env collision_world))
       = [RedisSetNX lockKey ''local_100'' 300000, RedisEval lockKey ''local_100'']
   \<and> (INFO, ''Daily reset already running on another instance - skipping'')
       \<in> set (log_calls (snd (resetDailyRequests plain_env collision_world)))
   \<and> user_table (snd (resetDailyRequests plain_env collision_world)) = [sample_user]
   \<and> redis_store (snd (resetDailyRequests plain_env collision_world)) lockKey = None"
proof -
  have lv: "lockValue plain_env collision_world = ''local_100''"
    by (simp add: lockValue_def)
  have ttl: "lockTTL * 1000 = 300000" by (simp add: lockTTL_def)
  have held: "lock_held plain_env collision_world"
    by (simp add: lock_held_def redis_get_def)
  have st: "redis_store collision_world lockKey
      = Some (lockValue plain_env collision_world, Some 300100)"
    by (simp add: lv)
  have live: "clock collision_world + 2 * latency plain_env < 300100" by simp
  note skip = job_skips_when_held [of plain_env collision_world, OF _ _ held]
  have del: "redis_store (snd (resetDailyRequests plain_env collision_world))
      = (redis_store collision_world)(lockKey := None)"
    using skipping_run_deletes_equal_value [of plain_env collision_world 300100, OF _ _ held st live]
    by simp
  show ?thesis
    using skip(1) skip(2) skip(3) held del by (simp add: lv ttl)
qed

text \<open>
  The lock is held and the store refuses the \<^verbatim>\<open>SET NX\<close> command: the error lands in the
  catch block, and the recovery resets the user, lock or no lock.
\<close>

lemma held_lock_store_error_resets:
  "lock_held store_error_env held_world
   \<and> issued (snd (resetDailyRequests store_error_env held_world))
       = [RedisSetNX lockKey ''local_100'' 300000, UserFindAll, UserSave 1,
          RedisEval lockKey ''local_100'']
   \<and> map requestsToday (user_table held_world) = [7]
   \<and> map requestsToday (user_table (snd (resetDailyRequests store_error_env held_world))) = [0]"
proof -
  let ?e = store_error_env and ?w = held_world
  have lv: "lockValue ?e ?w = ''local_100''" by (simp add: lockValue_def)
  have ttl: "lockTTL * 1000 = 300000" by (simp add: lockTTL_def)
  have held: "lock_held ?e ?w" by (simp add: lock_held_def redis_get_def)
  define w1 where "w1 = ?w\<lparr>issued := issued ?w @ [RedisSetNX lockKey ''local_100'' 300000],
                           clock := clock ?w + latency ?e\<rparr>"
  have rt: "reset_try ?e (lockValue ?e ?w) ?w = (Inl ''ECONNRESET'', w1)"
    by (simp add: reset_try_def acquire_lock_cases lv ttl w1_def)
  define w2 where "w2 = log_call INFO
      ''Attempting alternate daily reset method using findAll + individual updates''
      (log_call ERROR (''Error resetting daily request counts: '' @ ''ECONNRESET'') w1)"
  have i2: "issued w2 = [RedisSetNX lockKey ''local_100'' 300000]"
    and t2: "user_table w2 = [sample_user]"
    by (simp_all add: w2_def w1_def)
  define w3 where "w3 = w2\<lparr>issued := issued w2 @ [UserFindAll], clock := clock w2 + latency ?e\<rparr>"
  have fa: "await ?e UserFindAll findAll w2 = (Inr [sample_user], w3)"
    by (simp add: await_ok findAll_def w3_def t2)
  define u' where "u' = sample_user\<lparr>requestsToday := 0, lastRequestDate := clock w3\<rparr>"
  define w4 where "w4 = snd (write_row u' (w3\<lparr>issued := issued w3 @ [UserSave 1],
                                           clock := clock w3 + latency ?e\<rparr>))"
  have sv: "save ?e u' w3 = (Inr (), w4)"
    by (simp add: save_def await_ok u'_def w4_def sample_user_def)
  have re: "reset_each ?e [sample_user] 0 w3 = (Inr 1, w4)"
    using sv by (simp add: u'_def sample_user_def)
  have rec: "recovery ?e (log_call ERROR (''Error resetting daily request counts: '' @ ''ECONNRESET'') w1)
      = (Inr (), log_call INFO (''Daily recovery method successful - reset '' @ show_nat 1
                        @ '' users individually'') w4)"
    using fa re by (simp add: recovery_def Let_def w2_def)
  have bf: "before_finally ?e ?w
      = log_call INFO (''Daily recovery method successful - reset '' @ show_nat 1
                        @ '' users individually'') w4"
    using before_finally_caught [OF rt] rec by (simp add: catch_block_unfold)
  have i4: "issued w4 = [RedisSetNX lockKey ''local_100'' 300000, UserFindAll, UserSave 1]"
    by (simp add: w4_def write_row_def w3_def i2)
  have t4: "map requestsToday (user_table w4) = [0]"
    by (simp add: w4_def write_row_def w3_def t2 u'_def sample_user_def)
  have fin: "snd (resetDailyRequests ?e ?w) = snd (finally_block ?e (lockValue ?e ?w) (before_finally ?e ?w))"
    by (simp add: job_unfold)
  have a: "issued (snd (resetDailyRequests ?e ?w))
       = [RedisSetNX lockKey ''local_100'' 300000, UserFindAll, UserSave 1,
          RedisEval lockKey ''local_100'']"
    by (simp add: fin issued_finally_block bf i4 lv)
  have b: "map requestsToday (user_table (snd (resetDailyRequests ?e ?w))) = [0]"
    by (simp add: fin bf t4)
  have c: "map requestsToday (user_table ?w) = [7]" by (simp add: sample_user_def)
  show ?thesis using held a b c by simp
qed

subsection \<open>The WebSocket handshake\<close>

text \<open>
  The close handler and the error handler both clear the ping timer and ask the client
  manager to remove the client, naming it by its id alone; a pong asks for no removal.
\<close>

lemma handlers_remove_by_id:
  "RemoveClient i \<in> set (on_close i)"
  "RemoveClient i \<in> set (on_error i err)"
  "ClearInterval \<in> set (on_close i)"
  "ClearInterval \<in> set (on_error i err)"
  "RemoveClient j \<notin> set (on_pong i)"
  by (simp_all add: on_close_def on_error_def on_pong_def)

lemma ws_close_events: "snd (ws_close c code reason evs) = evs @ [WsClose code reason]"
  by (simp add: ws_close_def split: option.splits)

lemma reject_missing_events:
  "snd (reject_missing c) =
     [LogCall WARN ''Rejecting WebSocket connection: missing id or token'',
      WsClose 1008 ''Missing client ID or token'']"
  by (simp add: reject_missing_def ws_close_events)

lemma on_connection_cases:
  obtains (thrown) x evs where "connection_try c = (Inl x, evs)"
      and "on_connection c
             = evs @ [LogCall ERROR (''WebSocket connection error: '' @ x),
                      WsClose 1011 ''Server error'']"
    | (completed) evs where "connection_try c = (Inr (), evs)" and "on_connection c = evs"
proof (cases "connection_try c")
  case (Pair r evs)
  show ?thesis
  proof (cases r)
    case (Inl x)
    then show ?thesis using Pair thrown [of x evs] by (simp add: on_connection_def)
  next
    case (Inr u)
    then show ?thesis using Pair completed [of evs] by (simp add: on_connection_def)
  qed
qed

lemma on_connection_events:
  "set (snd (connection_try c)) \<subseteq> set (on_connection c)"
  by (cases c rule: on_connection_cases) auto

lemma on_connection_AddClient:
  "AddClient i t \<in> set (on_connection c) \<longleftrightarrow> AddClient i t \<in> set (snd (connection_try c))"
  by (cases c rule: on_connection_cases) auto

lemma on_connection_error:
  "fst (connection_try c) = Inl x \<Longrightarrow> WsClose 1011 ''Server error'' \<in> set (on_connection c)"
  by (cases c rule: on_connection_cases) auto

lemma connection_try_missing:
  assumes "searchParams c = Inr (qid, qtoken)" and "falsy qid \<or> falsy qtoken"
  shows "connection_try c = reject_missing c"
  using assms by (auto simp add: connection_try_def)

lemma connection_try_present:
  assumes "searchParams c = Inr (Some i, Some t)" and "i \<noteq> []" and "t \<noteq> []"
  shows "connection_try c = validate_and_register c i t"
  using assms by (simp add: connection_try_def falsy_def)

lemma AddClient_registered:
  assumes "AddClient i t \<in> set (on_connection c)"
  shows "searchParams c = Inr (Some i, Some t) \<and> i \<noteq> [] \<and> t \<noteq> []
         \<and> validateHeadlessSession c i t = Inr True"
proof -
  have a: "AddClient i t \<in> set (snd (connection_try c))"
    using assms by (simp add: on_connection_AddClient)
  show ?thesis
  proof (cases "searchParams c")
    case (Inl x)
    then show ?thesis using a by (simp add: connection_try_def)
  next
    case (Inr p)
    obtain qid qtoken where p: "p = (qid, qtoken)" by (cases p)
    show ?thesis
    proof (cases "falsy qid \<or> falsy qtoken")
      case True
      then show ?thesis
        using a Inr p connection_try_missing [of c qid qtoken]
        by (simp add: reject_missing_events)
    next
      case False
      then obtain i' t' where it: "qid = Some i'" "qtoken = Some t'" "i' \<noteq> []" "t' \<noteq> []"
        by (cases qid; cases qtoken) (auto simp add: falsy_def)
      have "connection_try c = validate_and_register c i' t'"
        using Inr p it by (simp add: connection_try_present)
      then have "AddClient i t \<in> set (snd (validate_and_register c i' t'))"
        using a by simp
      then have "i = i' \<and> t = t' \<and> validateHeadlessSession c i' t' = Inr True"
        by (auto simp add: validate_and_register_def ws_close_events
            split: sum.splits if_splits)
      then show ?thesis using Inr p it by simp
    qed
  qed
qed

text \<open>
  C1 (as amended). A connection whose \<^verbatim>\<open>id\<close> or \<^verbatim>\<open>token\<close> is absent or empty is
  closed with code 1008 and \<^verbatim>\<open>addClient\<close> is not called; so is one whose session
  \<^verbatim>\<open>validateHeadlessSession\<close> finds invalid. Whatever is thrown in the \<^verbatim>\<open>try\<close> block
  (by the URL, by the validation, by \<^verbatim>\<open>addClient\<close>) ends in a close with code 1011.
  With both parameters non-empty and a valid session, \<^verbatim>\<open>addClient\<close> is called with
  them.
\<close>

theorem handshake_outcomes:
  "(\<forall>qid qtoken. searchParams c = Inr (qid, qtoken) \<and> (falsy qid \<or> falsy qtoken) \<longrightarrow>
       WsClose 1008 ''Missing client ID or token'' \<in> set (on_connection c)
       \<and> (\<forall>i t. AddClient i t \<notin> set (on_connection c)))
   \<and> (\<forall>i t. searchParams c = Inr (Some i, Some t) \<and> i \<noteq> [] \<and> t \<noteq> []
         \<and> validateHeadlessSession c i t = Inr False \<longrightarrow>
       WsClose 1008 ''Invalid headless session'' \<in> set (on_connection c)
       \<and> (\<forall>i' t'. AddClient i' t' \<notin> set (on_connection c)))
   \<and> (\<forall>x. fst (connection_try c) = Inl x \<longrightarrow>
       WsClose 1011 ''Server error'' \<in> set (on_connection c))
   \<and> (\<forall>x. searchParams c = Inl x \<longrightarrow> fst (connection_try c) = Inl x)
   \<and> (\<forall>i t x. searchParams c = Inr (Some i, Some t) \<and> i \<noteq> [] \<and> t \<noteq> []
         \<and> (validateHeadlessSession c i t = Inl x
             \<or> validateHeadlessSession c i t = Inr True \<and> addClient c i t = Inl x) \<longrightarrow>
       fst (connection_try c) = Inl x)
   \<and> (\<forall>i t. searchParams c = Inr (Some i, Some t) \<and> i \<noteq> [] \<and> t \<noteq> []
         \<and> validateHeadlessSession c i t = Inr True \<longrightarrow>
       AddClient i t \<in> set (on_connection c))"
proof -
  have a: "WsClose 1008 ''Missing client ID or token'' \<in> set (on_connection c)
       \<and> (\<forall>i t. AddClient i t \<notin> set (on_connection c))"
    if "searchParams c = Inr (qid, qtoken)" and "falsy qid \<or> falsy qtoken" for qid qtoken
  proof -
    have ct: "snd (connection_try c) =
        [LogCall WARN ''Rejecting WebSocket connection: missing id or token'',
         WsClose 1008 ''Missing client ID or token'']"
      using connection_try_missing [OF that] by (simp add: reject_missing_events)
    have "WsClose 1008 ''Missing client ID or token'' \<in> set (on_connection c)"
      using on_connection_events [of c] ct by auto
    moreover have "AddClient i t \<notin> set (on_connection c)" for i t
      by (simp add: on_connection_AddClient ct)
    ultimately show ?thesis by blast
  qed
  have b: "WsClose 1008 ''Invalid headless session'' \<in> set (on_connection c)
       \<and> (\<forall>i' t'. AddClient i' t' \<notin> set (on_connection c))"
    if "searchParams c = Inr (Some i, Some t)" and "i \<noteq> []" and "t \<noteq> []"
      and "validateHeadlessSession c i t = Inr False" for i t
  proof -
    have ct: "snd (connection_try c) =
        [LogCall WARN (''Rejecting invalid headless client: '' @ i),
         WsClose 1008 ''Invalid headless session'']"
      using connection_try_present [OF that(1-3)] that(4)
      by (simp add: validate_and_register_def ws_close_events)
    have "WsClose 1008 ''Invalid headless session'' \<in> set (on_connection c)"
      using on_connection_events [of c] ct by auto
    moreover have "AddClient i' t' \<notin> set (on_connection c)" for i' t'
      by (simp add: on_connection_AddClient ct)
    ultimately show ?thesis by blast
  qed
  have d: "fst (connection_try c) = Inl x" if "searchParams c = Inl x" for x
    using that by (simp add: connection_try_def)
  have e: "fst (connection_try c) = Inl x"
    if "searchParams c = Inr (Some i, Some t)" and "i \<noteq> []" and "t \<noteq> []"
      and "validateHeadlessSession c i t = Inl x
             \<or> validateHeadlessSession c i t = Inr True \<and> addClient c i t = Inl x" for i t x
    using connection_try_present [OF that(1-3)] that(4)
    by (auto simp add: validate_and_register_def)
  have f: "AddClient i t \<in> set (on_connection c)"
    if "searchParams c = Inr (Some i, Some t)" and "i \<noteq> []" and "t \<noteq> []"
      and "validateHeadlessSession c i t = Inr True" for i t
    using connection_try_present [OF that(1-3)] that(4)
    by (auto simp add: on_connection_AddClient validate_and_register_def split: sum.splits)
  show ?thesis
  proof (intro conjI allI impI)
    fix qid qtoken
    assume "searchParams c = Inr (qid, qtoken) \<and> (falsy qid \<or> falsy qtoken)"
    then have h: "WsClose 1008 ''Missing client ID or token'' \<in> set (on_connection c)
       \<and> (\<forall>i t. AddClient i t \<notin> set (on_connection c))"
      using a [of qid qtoken] by simp
    show "WsClose 1008 ''Missing client ID or token'' \<in> set (on_connection c)"
      using h by simp
    show "AddClient i t \<notin> set (on_connection c)" for i t
      using h by simp
  next
    fix i t
    assume "searchParams c = Inr (Some i, Some t) \<and> i \<noteq> [] \<and> t \<noteq> []
         \<and> validateHeadlessSession c i t = Inr False"
    then have h: "WsClose 1008 ''Invalid headless session'' \<in> set (on_connection c)
       \<and> (\<forall>i' t'. AddClient i' t' \<notin> set (on_connection c))"
      using b [of i t] by simp
    show "WsClose 1008 ''Invalid headless session'' \<in> set (on_connection c)"
      using h by simp
    show "AddClient i' t' \<notin> set (on_connection c)" for i' t'
      using h by simp
  next
    fix x
    assume "fst (connection_try c) = Inl x"
    then show "WsClose 1011 ''Server error'' \<in> set (on_connection c)"
      by (rule on_connection_error)
  next
    fix x
    assume "searchParams c = Inl x"
    then show "fst (connection_try c) = Inl x" by (rule d)
  next
    fix i t x
    assume "searchParams c = Inr (Some i, Some t) \<and> i \<noteq> [] \<and> t \<noteq> []
         \<and> (validateHeadlessSession c i t = Inl x
             \<or> validateHeadlessSession c i t = Inr True \<and> addClient c i t = Inl x)"
    then show "fst (connection_try c) = Inl x"
      using e [of i t x] by simp
  next
    fix i t
    assume "searchParams c = Inr (Some i, Some t) \<and> i \<noteq> [] \<and> t \<noteq> []
         \<and> validateHeadlessSession c i t = Inr True"
    then show "AddClient i t \<in> set (on_connection c)"
      using f [of i t] by simp
  qed
qed

text \<open>
  C1 as stated fails: with \<^verbatim>\<open>?id=&token=secret\<close> both parameters are there, the
  validation would accept and nothing throws, and still the connection is closed with
  1008 and \<^verbatim>\<open>addClient\<close> is not called.
\<close>

theorem empty_id_rejected_counterexample:
  "searchParams empty_id_connection = Inr (Some [], Some ''secret'')
   \<and> validateHeadlessSession empty_id_connection [] ''secret'' = Inr True
   \<and> addClient empty_id_connection [] ''secret'' = Inr True
   \<and> connection_try empty_id_connection
       = (Inr (), [LogCall WARN ''Rejecting WebSocket connection: missing id or token'',
                   WsClose 1008 ''Missing client ID or token''])
   \<and> on_connection empty_id_connection
       = [LogCall WARN ''Rejecting WebSocket connection: missing id or token'',
          WsClose 1008 ''Missing client ID or token'']
   \<and> AddClient [] ''secret'' \<notin> set (on_connection empty_id_connection)"
  by (simp add: empty_id_connection_def on_connection_def connection_try_def falsy_def
      reject_missing_def ws_close_def)

theorem handshake_outcomes_witness:
  "falsy None
   \<and> WsClose 1008 ''Missing client ID or token''
        \<in> set (on_connection (valid_connection\<lparr>searchParams := Inr (Some ''W1'', None)\<rparr>))
   \<and> AddClient ''W1'' ''secret''
        \<notin> set (on_connection (valid_connection\<lparr>searchParams := Inr (Some ''W1'', None)\<rparr>))
   \<and> validateHeadlessSession valid_connection ''W1'' ''wrong'' = Inr False
   \<and> WsClose 1008 ''Invalid headless session''
        \<in> set (on_connection (valid_connection\<lparr>searchParams := Inr (Some ''W1'', Some ''wrong'')\<rparr>))
   \<and> AddClient ''W1'' ''wrong''
        \<notin> set (on_connection (valid_connection\<lparr>searchParams := Inr (Some ''W1'', Some ''wrong'')\<rparr>))
   \<and> WsClose 1011 ''Server error''
        \<in> set (on_connection (valid_connection\<lparr>searchParams := Inl ''TypeError: Invalid URL''\<rparr>))
   \<and> validateHeadlessSession valid_connection ''W1'' ''secret'' = Inr True
   \<and> AddClient ''W1'' ''secret'' \<in> set (on_connection valid_connection)"
proof -
  let ?missing = "valid_connection\<lparr>searchParams := Inr (Some ''W1'', None)\<rparr>"
  let ?invalid = "valid_connection\<lparr>searchParams := Inr (Some ''W1'', Some ''wrong'')\<rparr>"
  let ?broken = "valid_connection\<lparr>searchParams := Inl ''TypeError: Invalid URL''\<rparr>"
  have m: "searchParams ?missing = Inr (Some ''W1'', None) \<and> (falsy (Some ''W1'') \<or> falsy None)"
    by (simp add: falsy_def)
  have i: "searchParams ?invalid = Inr (Some ''W1'', Some ''wrong'') \<and> ''W1'' \<noteq> [] \<and> ''wrong'' \<noteq> []
      \<and> validateHeadlessSession ?invalid ''W1'' ''wrong'' = Inr False"
    by (simp add: valid_connection_def)
  have b: "searchParams ?broken = Inl ''TypeError: Invalid URL''"
    by simp
  have v: "searchParams valid_connection = Inr (Some ''W1'', Some ''secret'') \<and> ''W1'' \<noteq> []
      \<and> ''secret'' \<noteq> [] \<and> validateHeadlessSession valid_connection ''W1'' ''secret'' = Inr True"
    by (simp add: valid_connection_def)
  have c1: "WsClose 1008 ''Missing client ID or token'' \<in> set (on_connection ?missing)
      \<and> AddClient ''W1'' ''secret'' \<notin> set (on_connection ?missing)"
    using handshake_outcomes [of ?missing] m by blast
  have c2: "WsClose 1008 ''Invalid headless session'' \<in> set (on_connection ?invalid)
      \<and> AddClient ''W1'' ''wrong'' \<notin> set (on_connection ?invalid)"
    using handshake_outcomes [of ?invalid] i by blast
  have "fst (connection_try ?broken) = Inl ''TypeError: Invalid URL''"
    using handshake_outcomes [of ?broken] b by blast
  then have c3: "WsClose 1011 ''Server error'' \<in> set (on_connection ?broken)"
    using handshake_outcomes [of ?broken] by blast
  have c4: "AddClient ''W1'' ''secret'' \<in> set (on_connection valid_connection)"
    using handshake_outcomes [of valid_connection] v by blast
  have vi: "validateHeadlessSession valid_connection ''W1'' ''wrong'' = Inr False"
    by (simp add: valid_connection_def)
  show ?thesis
    using c1 c2 c3 c4 v vi by (simp add: falsy_def)
qed

subsection \<open>The entity routes\<close>

lemma entityRouter_paths:
  "map (\<lambda>r. (verb r, path r)) entityRouter =
     [(GET, ''/get''), (POST, ''/create''), (PUT, ''/update''), (DELETE, ''/delete''),
      (POST, ''/give''), (POST, ''/remove''), (POST, ''/decrease''), (POST, ''/increase''),
      (POST, ''/kill'')]"
  by (simp add: entityRouter_def get_route_def create_route_def update_route_def
      delete_route_def give_route_def remove_route_def decrease_route_def increase_route_def
      kill_route_def)

lemma clientId_sources:
  "required_from get_route ''clientId'' = Some [Query]"
  "required_from create_route ''clientId'' = Some [Query]"
  "required_from update_route ''clientId'' = Some [Query]"
  "required_from delete_route ''clientId'' = Some [Query]"
  "required_from give_route ''clientId'' = Some [Body, Query]"
  "required_from remove_route ''clientId'' = Some [Body, Query]"
  "required_from decrease_route ''clientId'' = Some [Query]"
  "required_from increase_route ''clientId'' = Some [Query]"
  "required_from kill_route ''clientId'' = Some [Query]"
  by (simp_all add: required_from_def get_route_def create_route_def update_route_def
      delete_route_def give_route_def remove_route_def decrease_route_def increase_route_def
      kill_route_def)

lemma route_paths:
  "path get_route = ''/get''" "path create_route = ''/create''" "path update_route = ''/update''"
  "path delete_route = ''/delete''" "path give_route = ''/give''" "path remove_route = ''/remove''"
  "path decrease_route = ''/decrease''" "path increase_route = ''/increase''"
  "path kill_route = ''/kill''"
  by (simp_all add: get_route_def create_route_def update_route_def
      delete_route_def give_route_def remove_route_def decrease_route_def increase_route_def
      kill_route_def)

text \<open>
  C9. The router has the nine routes get, create, update, delete, give, remove, decrease,
  increase and kill; each requires \<^verbatim>\<open>clientId\<close>; give and remove declare it from the
  body or the query, all the others from the query only.
\<close>

theorem clientId_from_body_or_query:
  "map (\<lambda>r. (verb r, path r)) entityRouter =
     [(GET, ''/get''), (POST, ''/create''), (PUT, ''/update''), (DELETE, ''/delete''),
      (POST, ''/give''), (POST, ''/remove''), (POST, ''/decrease''), (POST, ''/increase''),
      (POST, ''/kill'')]
   \<and> (\<forall>r \<in> set entityRouter.
         required_from r ''clientId''
           = Some (if path r = ''/give'' \<or> path r = ''/remove'' then [Body, Query] else [Query]))"
proof -
  have "required_from r ''clientId''
           = Some (if path r = ''/give'' \<or> path r = ''/remove'' then [Body, Query] else [Query])"
    if mem: "r \<in> set entityRouter" for r
  proof -
    consider "r = get_route" | "r = create_route" | "r = update_route" | "r = delete_route"
      | "r = give_route" | "r = remove_route" | "r = decrease_route" | "r = increase_route"
      | "r = kill_route"
      using mem by (auto simp add: entityRouter_def)
    then show ?thesis
      by cases (simp_all add: clientId_sources route_paths)
  qed
  then show ?thesis
    using entityRouter_paths by blast
qed

theorem clientId_from_body_or_query_witness:
  "give_route \<in> set entityRouter
   \<and> path give_route = ''/give''
   \<and> required_from give_route ''clientId'' = Some [Body, Query]
   \<and> remove_route \<in> set entityRouter
   \<and> required_from remove_route ''clientId'' = Some [Body, Query]
   \<and> kill_route \<in> set entityRouter
   \<and> path kill_route = ''/kill''
   \<and> required_from kill_route ''clientId'' = Some [Query]"
proof -
  have m: "give_route \<in> set entityRouter" "remove_route \<in> set entityRouter"
    "kill_route \<in> set entityRouter"
    by (simp_all add: entityRouter_def)
  have "required_from give_route ''clientId''
      = Some (if path give_route = ''/give'' \<or> path give_route = ''/remove'' then [Body, Query] else [Query])"
    and "required_from remove_route ''clientId''
      = Some (if path remove_route = ''/give'' \<or> path remove_route = ''/remove'' then [Body, Query] else [Query])"
    and "required_from kill_route ''clientId''
      = Some (if path kill_route = ''/give'' \<or> path kill_route = ''/remove'' then [Body, Query] else [Query])"
    using clientId_from_body_or_query m by blast+
  then show ?thesis
    using m by (simp add: route_paths)
qed

text \<open>
  C2. For a macro whose command fails \<^verbatim>\<open>validateScript\<close>, \<^verbatim>\<open>validateParams\<close> returns
  exactly the rejection with the two texts, and the dispatcher answers 400 with it and
  sends no envelope; for any other entity type \<^verbatim>\<open>validateParams\<close> returns \<^verbatim>\<open>null\<close>
  and logs nothing.
\<close>

theorem macro_denylist_rejects:
  "(entityType params = ''Macro'' \<and> get_prop (data params) ''command'' = Inr command
      \<and> \<not> validateScript command \<longrightarrow>
      fst (validateParams validateScript params)
        = Inr (Some \<lparr>error = ''Script contains forbidden patterns'',
                     suggestion = ''Ensure the script does not access localStorage, sessionStorage, or eval()''\<rparr>)
      \<and> (extracted inp = Some params \<longrightarrow>
           dispatch ''create'' (\<lambda>p. fst (validateParams validateScript p)) inp
             = (Some \<lparr>status = 400,
                      body = Rejected
                        \<lparr>error = ''Script contains forbidden patterns'',
                         suggestion = ''Ensure the script does not access localStorage, sessionStorage, or eval()''\<rparr>\<rparr>,
                [])))
   \<and> (entityType params \<noteq> ''Macro'' \<longrightarrow> validateParams validateScript params = (Inr None, []))"
  by (simp add: validateParams_def dispatch_def)

lemma macro_request_command:
  "get_prop (data macro_request) ''command'' = Inr (Some (JString ''eval(1)''))"
  by (simp add: macro_request_def)

theorem macro_denylist_rejects_witness:
  "entityType macro_request = ''Macro''
   \<and> get_prop (data macro_request) ''command'' = Inr (Some (JString ''eval(1)''))
   \<and> \<not> toy_denylist (Some (JString ''eval(1)''))
   \<and> extracted (smooth_dispatch macro_request) = Some macro_request
   \<and> dispatch ''create'' (\<lambda>p. fst (validateParams toy_denylist p)) (smooth_dispatch macro_request)
       = (Some \<lparr>status = 400,
                body = Rejected
                  \<lparr>error = ''Script contains forbidden patterns'',
                   suggestion = ''Ensure the script does not access localStorage, sessionStorage, or eval()''\<rparr>\<rparr>,
          [])
   \<and> entityType (macro_request\<lparr>entityType := ''Actor''\<rparr>) \<noteq> ''Macro''
   \<and> validateParams toy_denylist (macro_request\<lparr>entityType := ''Actor''\<rparr>) = (Inr None, [])"
proof -
  have h: "entityType macro_request = ''Macro''"
    "\<not> toy_denylist (Some (JString ''eval(1)''))"
    "extracted (smooth_dispatch macro_request) = Some macro_request"
    "entityType (macro_request\<lparr>entityType := ''Actor''\<rparr>) \<noteq> ''Macro''"
    by (simp_all add: macro_request_def toy_denylist_def smooth_dispatch_def)
  have a: "dispatch ''create'' (\<lambda>p. fst (validateParams toy_denylist p)) (smooth_dispatch macro_request)
       = (Some \<lparr>status = 400,
                body = Rejected
                  \<lparr>error = ''Script contains forbidden patterns'',
                   suggestion = ''Ensure the script does not access localStorage, sessionStorage, or eval()''\<rparr>\<rparr>,
          [])"
    using macro_denylist_rejects [of macro_request "Some (JString ''eval(1)'')" toy_denylist
        "smooth_dispatch macro_request"] h macro_request_command
    by blast
  have b: "validateParams toy_denylist (macro_request\<lparr>entityType := ''Actor''\<rparr>) = (Inr None, [])"
    using macro_denylist_rejects [of "macro_request\<lparr>entityType := ''Actor''\<rparr>" None toy_denylist
        "smooth_dispatch macro_request"] h(4)
    by blast
  show ?thesis
    using h macro_request_command a b by simp
qed

end
